theory Spec2Isabelle
  imports Complex_Main
begin

section \<open>The slider of h5p-agamotto (src/scripts/slider.js)\<close>

text \<open>
  The theory embeds the state and the operations of \<^verbatim>\<open>Agamotto.Slider\<close>: the track
  width, the thumb position kept in \<^verbatim>\<open>thumb.style.left\<close>, the ratio, the interaction
  flags, \<^verbatim>\<open>setPosition\<close>, \<^verbatim>\<open>getPosition\<close>, \<^verbatim>\<open>snap\<close>, \<^verbatim>\<open>resize\<close> and the event
  listeners installed by the constructor. The creation of DOM nodes and the layout of
  ticks and labels are left out.
\<close>

subsection \<open>JavaScript numbers\<close>

text \<open>
  A JavaScript number is an IEEE 754 double: here a rational (the value of a finite
  double), one of the two infinities, or NaN. The two zeros are one value. Every
  arithmetic operation computes the exact result and rounds it to the nearest double,
  ties to the even significand (\<open>fl\<close> below): 53 bits of significand, gradual underflow
  below \<open>2\<^sup>-\<^sup>1\<^sup>0\<^sup>2\<^sup>2\<close>, overflow to an infinity from \<open>2\<^sup>1\<^sup>0\<^sup>2\<^sup>4 - 2\<^sup>9\<^sup>7\<^sup>0\<close> on. So
  \<^verbatim>\<open>29 / 200 * 100\<close> is \<open>14.499999999999998\<close> and \<^verbatim>\<open>2 ** 56 + 8\<close> is \<open>2\<^sup>5\<^sup>6\<close>, as in the
  language. A numeric literal such as \<^verbatim>\<open>0.01\<close> denotes \<open>fl (1 / 100)\<close>.
\<close>

datatype jsnum = Fin rat | PInf | NInf | NaN

text \<open>
  \<open>lg2 x\<close> is the binary exponent of \<open>x > 0\<close>, the \<open>e\<close> with \<open>2\<^sup>e \<le> x < 2\<^sup>e\<^sup>+\<^sup>1\<close>, found
  by doubling or halving \<open>x\<close> until it lies in \<open>[1, 2)\<close>.
\<close>

function lg_up :: "rat \<Rightarrow> int" where
  "lg_up x = (if 0 < x \<and> x < 1 then lg_up (2 * x) - 1 else 0)"
  by pat_completeness auto
termination
proof (relation "measure (\<lambda>x. nat \<lceil>1 / x\<rceil>)")
  show "wf (measure (\<lambda>x::rat. nat \<lceil>1 / x\<rceil>))" by simp
next
  fix x :: rat
  assume a: "0 < x \<and> x < 1"
  have y: "1 < 1 / x" using a by simp
  have c2: "2 \<le> \<lceil>1 / x\<rceil>" using y by linarith
  have "1 / (2 * x) = (1 / x) / 2" by simp
  also have "\<dots> \<le> of_int \<lceil>1 / x\<rceil> / 2"
    using le_of_int_ceiling [of "1 / x"] by (simp only: divide_right_mono zero_le_numeral)
  also have "\<dots> \<le> of_int (\<lceil>1 / x\<rceil> - 1)"
  proof -
    have "(2::rat) \<le> of_int \<lceil>1 / x\<rceil>" using c2 by linarith
    then have "of_int \<lceil>1 / x\<rceil> / 2 \<le> of_int \<lceil>1 / x\<rceil> - (1::rat)" by linarith
    then show ?thesis by (simp only: of_int_diff of_int_1)
  qed
  finally have "\<lceil>1 / (2 * x)\<rceil> \<le> \<lceil>1 / x\<rceil> - 1" by (rule ceiling_le)
  then have "nat \<lceil>1 / (2 * x)\<rceil> < nat \<lceil>1 / x\<rceil>"
    using c2 by linarith
  then show "(2 * x, x) \<in> measure (\<lambda>x. nat \<lceil>1 / x\<rceil>)"
    by (simp only: in_measure)
qed

function lg_down :: "rat \<Rightarrow> int" where
  "lg_down x = (if 2 \<le> x then lg_down (x / 2) + 1 else 0)"
  by pat_completeness auto
termination
proof (relation "measure (\<lambda>x. nat \<lfloor>x\<rfloor>)")
  show "wf (measure (\<lambda>x::rat. nat \<lfloor>x\<rfloor>))" by simp
next
  fix x :: rat
  assume a: "2 \<le> x"
  have "\<lfloor>x / 2\<rfloor> < \<lfloor>x\<rfloor>" using a by linarith
  moreover have "0 < \<lfloor>x\<rfloor>" using a by linarith
  ultimately show "(x / 2, x) \<in> measure (\<lambda>x. nat \<lfloor>x\<rfloor>)" by simp
qed

declare lg_up.simps [simp del]
declare lg_down.simps [simp del]

definition lg2 :: "rat \<Rightarrow> int" where
  "lg2 x = lg_up x + lg_down x"

text \<open>\<open>2\<^sup>e\<close> for an integer \<open>e\<close>.\<close>

definition pow2 :: "int \<Rightarrow> rat" where
  "pow2 e = (if 0 \<le> e then 2 ^ nat e else 1 / 2 ^ nat (- e))"

text \<open>The nearest integer, a tie going to the even one.\<close>

definition round_even :: "rat \<Rightarrow> int" where
  "round_even q =
     (let f = \<lfloor>q\<rfloor>; d = q - of_int f
      in if d < 1 / 2 then f else if 1 / 2 < d then f + 1
         else if even f then f else f + 1)"

text \<open>
  Rounding to a double. With \<open>e\<close> the exponent of \<open>|x|\<close> (at least \<open>-1022\<close>, where the
  subnormal numbers begin), the doubles near \<open>x\<close> are the multiples of \<open>2\<^sup>e\<^sup>-\<^sup>5\<^sup>2\<close>;
  \<open>round_at\<close> takes the nearest multiple \<open>m\<close> and \<open>pack\<close> turns a result of \<open>2\<^sup>1\<^sup>0\<^sup>2\<^sup>4\<close> or more
  into an infinity.
\<close>

definition pack :: "int \<Rightarrow> int \<Rightarrow> rat \<Rightarrow> jsnum" where
  "pack e m x =
     (if 1024 \<le> e \<or> (e = 1023 \<and> m = 2 ^ 53) then (if 0 < x then PInf else NInf)
      else Fin (sgn x * (of_int m * pow2 (e - 52))))"

definition round_at :: "int \<Rightarrow> rat \<Rightarrow> jsnum" where
  "round_at e x = pack e (round_even (\<bar>x\<bar> / pow2 (e - 52))) x"

definition fl :: "rat \<Rightarrow> jsnum" where
  "fl x = (if x = 0 then Fin 0 else round_at (max (lg2 \<bar>x\<bar>) (- 1022)) x)"

fun jneg :: "jsnum \<Rightarrow> jsnum" where
  "jneg (Fin a) = Fin (- a)"
| "jneg PInf = NInf"
| "jneg NInf = PInf"
| "jneg NaN = NaN"

text \<open>\<^verbatim>\<open>a + b\<close> on numbers: the exact sum, rounded.\<close>

fun jadd :: "jsnum \<Rightarrow> jsnum \<Rightarrow> jsnum" where
  "jadd (Fin a) (Fin b) = fl (a + b)"
| "jadd NaN _ = NaN"
| "jadd _ NaN = NaN"
| "jadd PInf NInf = NaN"
| "jadd NInf PInf = NaN"
| "jadd PInf _ = PInf"
| "jadd NInf _ = NInf"
| "jadd (Fin a) PInf = PInf"
| "jadd (Fin a) NInf = NInf"

text \<open>\<^verbatim>\<open>a - b\<close>.\<close>

definition jsub :: "jsnum \<Rightarrow> jsnum \<Rightarrow> jsnum" where
  "jsub a b = jadd a (jneg b)"

text \<open>\<^verbatim>\<open>a * b\<close>: the exact product, rounded; zero times an infinity is NaN.\<close>

fun jmul :: "jsnum \<Rightarrow> jsnum \<Rightarrow> jsnum" where
  "jmul (Fin a) (Fin b) = fl (a * b)"
| "jmul NaN _ = NaN"
| "jmul _ NaN = NaN"
| "jmul (Fin a) PInf = (if a = 0 then NaN else if 0 < a then PInf else NInf)"
| "jmul (Fin a) NInf = (if a = 0 then NaN else if 0 < a then NInf else PInf)"
| "jmul PInf (Fin b) = (if b = 0 then NaN else if 0 < b then PInf else NInf)"
| "jmul NInf (Fin b) = (if b = 0 then NaN else if 0 < b then NInf else PInf)"
| "jmul PInf PInf = PInf"
| "jmul NInf NInf = PInf"
| "jmul PInf NInf = NInf"
| "jmul NInf PInf = NInf"

text \<open>
  \<^verbatim>\<open>a / b\<close>: the exact quotient, rounded. JavaScript never faults on a zero divisor;
  \<^verbatim>\<open>0 / 0\<close> is NaN and a non-zero number over zero is an infinity.
\<close>

fun jdiv :: "jsnum \<Rightarrow> jsnum \<Rightarrow> jsnum" where
  "jdiv (Fin a) (Fin b) =
     (if b = 0 then (if a = 0 then NaN else if 0 < a then PInf else NInf)
      else fl (a / b))"
| "jdiv NaN _ = NaN"
| "jdiv _ NaN = NaN"
| "jdiv (Fin a) PInf = Fin 0"
| "jdiv (Fin a) NInf = Fin 0"
| "jdiv PInf (Fin b) = (if 0 \<le> b then PInf else NInf)"
| "jdiv NInf (Fin b) = (if 0 \<le> b then NInf else PInf)"
| "jdiv PInf PInf = NaN"
| "jdiv PInf NInf = NaN"
| "jdiv NInf PInf = NaN"
| "jdiv NInf NInf = NaN"

text \<open>\<^verbatim>\<open>a < b\<close>: false as soon as one side is NaN.\<close>

fun jless :: "jsnum \<Rightarrow> jsnum \<Rightarrow> bool" where
  "jless (Fin a) (Fin b) = (a < b)"
| "jless NaN _ = False"
| "jless _ NaN = False"
| "jless NInf NInf = False"
| "jless NInf _ = True"
| "jless _ NInf = False"
| "jless PInf _ = False"
| "jless (Fin a) PInf = True"

text \<open>\<^verbatim>\<open>a <= b\<close>.\<close>

fun jle :: "jsnum \<Rightarrow> jsnum \<Rightarrow> bool" where
  "jle (Fin a) (Fin b) = (a \<le> b)"
| "jle NaN _ = False"
| "jle _ NaN = False"
| "jle NInf _ = True"
| "jle _ PInf = True"
| "jle PInf _ = False"
| "jle (Fin a) NInf = False"

text \<open>
  \<^verbatim>\<open>Math.max\<close>, \<^verbatim>\<open>Math.min\<close> (NaN if an argument is NaN) and \<^verbatim>\<open>Math.round\<close> (the
  nearest integer, halves upwards; it is computed exactly, and of a double it is a double).
\<close>

definition Math_max :: "jsnum \<Rightarrow> jsnum \<Rightarrow> jsnum" where
  "Math_max a b = (if a = NaN \<or> b = NaN then NaN else if jless a b then b else a)"

definition Math_min :: "jsnum \<Rightarrow> jsnum \<Rightarrow> jsnum" where
  "Math_min a b = (if a = NaN \<or> b = NaN then NaN else if jless b a then b else a)"

fun Math_round :: "jsnum \<Rightarrow> jsnum" where
  "Math_round (Fin a) = Fin (of_int \<lfloor>a + 1 / 2\<rfloor>)"
| "Math_round PInf = PInf"
| "Math_round NInf = NInf"
| "Math_round NaN = NaN"

subsection \<open>parseInt\<close>

text \<open>
  \<^verbatim>\<open>parseInt(x)\<close> converts its argument to a string and reads the longest prefix that
  is an optionally signed integer. The string of a number is the shortest decimal that
  rounds back to it. It is in plain decimal notation when the decimal lies in
  \<open>[10\<^sup>-\<^sup>6, 10\<^sup>2\<^sup>1)\<close>, and then no whole number lies between the decimal and the number, so
  the result is the number cut towards zero. Otherwise it is in exponent notation,
  \<^verbatim>\<open>d.ddde-7\<close> or \<^verbatim>\<open>d.ddde+21\<close>, where reading stops after the leading digit \<open>d\<close>:
  \<^verbatim>\<open>parseInt(0.0000005)\<close> is 5. \<open>scale_up\<close> and \<open>scale_down\<close> shift the decimal point of
  the number's exact value until one digit \<open>d\<^sub>0\<close> is left before it. The shortest decimal
  has that leading digit too, unless it is the single digit \<open>d\<^sub>0 + 1\<close> (the number lies
  just below it and is the double nearest to it); for \<open>d\<^sub>0 = 9\<close> that decimal is a power of
  ten and its digit is 1.
\<close>

function scale_up :: "rat \<Rightarrow> rat" where
  "scale_up x = (if 0 < x \<and> x < 1 then scale_up (10 * x) else x)"
  by pat_completeness auto
termination
proof (relation "measure (\<lambda>x. nat \<lceil>1 / x\<rceil>)")
  show "wf (measure (\<lambda>x::rat. nat \<lceil>1 / x\<rceil>))" by simp
next
  fix x :: rat
  assume a: "0 < x \<and> x < 1"
  have y: "1 < 1 / x" using a by simp
  have c2: "2 \<le> \<lceil>1 / x\<rceil>" using y by linarith
  have "1 / (10 * x) = (1 / x) / 10" by simp
  also have "\<dots> \<le> of_int \<lceil>1 / x\<rceil> / 10"
    using le_of_int_ceiling [of "1 / x"] by (simp only: divide_right_mono zero_le_numeral)
  also have "\<dots> \<le> of_int (\<lceil>1 / x\<rceil> - 1)"
  proof -
    have "(2::rat) \<le> of_int \<lceil>1 / x\<rceil>" using c2 by linarith
    then have "of_int \<lceil>1 / x\<rceil> / 10 \<le> of_int \<lceil>1 / x\<rceil> - (1::rat)" by linarith
    then show ?thesis by (simp only: of_int_diff of_int_1)
  qed
  finally have "\<lceil>1 / (10 * x)\<rceil> \<le> \<lceil>1 / x\<rceil> - 1" by (rule ceiling_le)
  then have "nat \<lceil>1 / (10 * x)\<rceil> < nat \<lceil>1 / x\<rceil>"
    using c2 by linarith
  then show "(10 * x, x) \<in> measure (\<lambda>x. nat \<lceil>1 / x\<rceil>)"
    by (simp only: in_measure)
qed

function scale_down :: "rat \<Rightarrow> rat" where
  "scale_down x = (if 10 \<le> x then scale_down (x / 10) else x)"
  by pat_completeness auto
termination
proof (relation "measure (\<lambda>x. nat \<lfloor>x\<rfloor>)")
  show "wf (measure (\<lambda>x::rat. nat \<lfloor>x\<rfloor>))" by simp
next
  fix x :: rat
  assume a: "10 \<le> x"
  have "\<lfloor>x / 10\<rfloor> < \<lfloor>x\<rfloor>" using a by linarith
  moreover have "0 < \<lfloor>x\<rfloor>" using a by linarith
  ultimately show "(x / 10, x) \<in> measure (\<lambda>x. nat \<lfloor>x\<rfloor>)" by simp
qed

declare scale_up.simps [simp del]
declare scale_down.simps [simp del]

definition trunc :: "rat \<Rightarrow> int" where
  "trunc x = (if 0 \<le> x then \<lfloor>x\<rfloor> else \<lceil>x\<rceil>)"

definition shortest_digit :: "rat \<Rightarrow> rat \<Rightarrow> int \<Rightarrow> int" where
  "shortest_digit x y d =
     (if fl (of_int (d + 1) * (x / y)) = Fin x then (if d = 9 then 1 else d + 1) else d)"

definition scaled_digit :: "rat \<Rightarrow> rat \<Rightarrow> int" where
  "scaled_digit x y = shortest_digit x y \<lfloor>y\<rfloor>"

definition leading_digit :: "rat \<Rightarrow> int" where
  "leading_digit x = scaled_digit x (scale_down (scale_up x))"

text \<open>
  Plain decimal notation, for \<open>x > 0\<close>: the exact value lies in \<open>[10\<^sup>-\<^sup>6, 10\<^sup>2\<^sup>1)\<close>, or \<open>x\<close> is
  the double nearest to \<open>10\<^sup>-\<^sup>6\<close>, which lies below it and is printed \<^verbatim>\<open>0.000001\<close>.
  (\<open>10\<^sup>2\<^sup>1\<close> is a double itself, so no double below it is printed as \<^verbatim>\<open>1e+21\<close>.)
\<close>

definition plain_decimal :: "rat \<Rightarrow> bool" where
  "plain_decimal x = ((1 / 10 ^ 6 \<le> x \<and> x < 10 ^ 21) \<or> fl (1 / 10 ^ 6) = Fin x)"

definition parseInt_number :: "jsnum \<Rightarrow> jsnum" where
  "parseInt_number v =
     (case v of
        Fin x \<Rightarrow>
          if x = 0 then Fin 0
          else if plain_decimal \<bar>x\<bar> then fl (of_int (trunc x))
          else Fin (sgn x * of_int (leading_digit \<bar>x\<bar>))
      | _ \<Rightarrow> NaN)"

text \<open>
  \<^verbatim>\<open>parseInt\<close> of a string (no radix argument): leading white space is skipped, then an
  optional sign, then \<^verbatim>\<open>0x\<close> or \<^verbatim>\<open>0X\<close> switches to base 16, then the digits are
  read as far as they go and their value is rounded to a double; with no digit at all the
  result is NaN. Strings are ASCII here.
\<close>

definition is_white :: "char \<Rightarrow> bool" where
  "is_white c = (c \<in> set [CHR 0x09, CHR 0x0A, CHR 0x0B, CHR 0x0C, CHR 0x0D, CHR 0x20])"

definition digit_value :: "char \<Rightarrow> nat option" where
  "digit_value c =
     (let n = (of_char c :: nat) in
      if 48 \<le> n \<and> n \<le> 57 then Some (n - 48)
      else if 97 \<le> n \<and> n \<le> 122 then Some (n - 87)
      else if 65 \<le> n \<and> n \<le> 90 then Some (n - 55)
      else None)"

definition is_digit :: "nat \<Rightarrow> char \<Rightarrow> bool" where
  "is_digit radix c = (case digit_value c of None \<Rightarrow> False | Some d \<Rightarrow> d < radix)"

definition digits_value :: "nat \<Rightarrow> string \<Rightarrow> nat" where
  "digits_value radix ds = foldl (\<lambda>acc c. acc * radix + the (digit_value c)) 0 ds"

definition parseInt_string :: "string \<Rightarrow> jsnum" where
  "parseInt_string str =
     (let t = dropWhile is_white str;
          negative = (t \<noteq> [] \<and> hd t = CHR ''-'');
          t = (if t \<noteq> [] \<and> (hd t = CHR ''-'' \<or> hd t = CHR ''+'') then tl t else t);
          hex = (take 2 t = ''0x'' \<or> take 2 t = ''0X'');
          radix = (if hex then 16 else 10);
          t = (if hex then drop 2 t else t);
          ds = takeWhile (is_digit radix) t
      in if ds = [] then NaN
         else fl ((if negative then - 1 else 1) * of_nat (digits_value radix ds)))"

subsection \<open>Helpers of the parent module\<close>

text \<open>
  Modelled from the spec: \<^verbatim>\<open>Agamotto.constrain\<close> is defined in the parent module, which
  is not among the sources. The spec says of it that the "resulting raw value is clamped to
  \<^verbatim>\<open>[0, trackWidth]\<close>"; the clamp is taken to be the usual composition
  \<^verbatim>\<open>Math.min(hi, Math.max(lo, value))\<close>, which passes NaN through.
\<close>

definition constrain :: "jsnum \<Rightarrow> jsnum \<Rightarrow> jsnum \<Rightarrow> jsnum" where
  "constrain v lo hi = Math_min hi (Math_max lo v)"

text \<open>
  Modelled from the spec: \<^verbatim>\<open>Agamotto.map\<close> is defined in the parent module, which is not
  among the sources. The spec gives it as linear interpolation,
  \<^verbatim>\<open>map(v, inLo, inHi, outLo, outHi) = outLo + (v - inLo) * (outHi - outLo) / (inHi - inLo)\<close>.
\<close>

definition map_agamotto :: "jsnum \<Rightarrow> jsnum \<Rightarrow> jsnum \<Rightarrow> jsnum \<Rightarrow> jsnum \<Rightarrow> jsnum" where
  "map_agamotto v inLo inHi outLo outHi =
     jadd outLo (jdiv (jmul (jsub v inLo) (jsub outHi outLo)) (jsub inHi inLo))"

subsection \<open>The slider's state\<close>

text \<open>
  The argument of \<^verbatim>\<open>setPosition\<close> by its \<^verbatim>\<open>typeof\<close>: a string, a number, an object
  (a mouse or touch event), \<^verbatim>\<open>null\<close> (whose \<^verbatim>\<open>typeof\<close> is \<^verbatim>\<open>'object'\<close> too), or
  anything else (\<^verbatim>\<open>undefined\<close>, a boolean, a function). Of an event the slider reads
  \<^verbatim>\<open>type\<close>, \<^verbatim>\<open>touches\<close> (the \<^verbatim>\<open>pageX\<close> of each touch point, \<open>None\<close> when the property
  is absent) and \<^verbatim>\<open>clientX\<close>; a coordinate that is \<^verbatim>\<open>undefined\<close> is NaN, which is its
  value in the subtraction that follows.
\<close>

record pointer_event =
  ev_type :: string
  touches :: "jsnum list option"
  clientX :: jsnum

datatype jsval = Str string | Num jsnum | Obj pointer_event | Null | Other

datatype error = TypeError

text \<open>
  What the slider sends out: \<^verbatim>\<open>this.trigger('update', {position, percentage})\<close> and the
  two calls \<^verbatim>\<open>parent.xAPIInteracted()\<close>, \<^verbatim>\<open>parent.xAPICompleted()\<close>.
\<close>

datatype notification = Update jsnum jsnum | XAPIInteracted | XAPICompleted

text \<open>
  The fields of the object and the parts of the DOM it reads back. \<open>keydown\<close> is
  \<^verbatim>\<open>false\<close> (\<open>None\<close>) or a key code. \<open>sliderdown\<close> is never initialised by the
  constructor; \<^verbatim>\<open>undefined\<close> and \<^verbatim>\<open>false\<close> both fail the test \<^verbatim>\<open>=== true\<close> and are
  one value here. \<open>disabled\<close> and \<open>transition\<close> are the two classes of the thumb's class
  list. \<open>thumb_left\<close> is \<^verbatim>\<open>thumb.style.left\<close>: \<open>None\<close> for the empty string, \<open>Some v\<close>
  for the string of the finite number \<open>v\<close> followed by \<^verbatim>\<open>px\<close>; for such a string the
  style is taken to return what was assigned. The three style strings are the computed styles that
  \<^verbatim>\<open>setPosition\<close> reads. \<open>emitted\<close> is the log of what was sent out, oldest first.
  \<^verbatim>\<open>thumbPosition\<close> is set to 0 by the constructor and never used again; it is omitted.
\<close>

record slider =
  opt_snap :: bool
  opt_size :: jsnum
  trackWidth :: jsnum
  ratio :: jsnum
  mousedown :: bool
  keydown :: "nat option"
  sliderdown :: bool
  disabled :: bool
  transition :: bool
  thumb_left :: "jsnum option"
  aria_valuenow :: jsnum
  touchmove_listeners :: nat
  container_marginLeft :: string
  selector_paddingLeft :: string
  selector_marginLeft :: string
  emitted :: "notification list"

definition TRACK_OFFSET :: jsnum where
  "TRACK_OFFSET = Fin 16"

definition THUMB_OFFSET :: jsnum where
  "THUMB_OFFSET = Fin 8"

text \<open>The state the constructor leaves (lines 20-43, 55), for given options and styles.\<close>

definition init :: "bool \<Rightarrow> jsnum \<Rightarrow> string \<Rightarrow> string \<Rightarrow> string \<Rightarrow> slider" where
  "init snap_opt size_opt cm sp sm =
     \<lparr>opt_snap = snap_opt, opt_size = size_opt, trackWidth = Fin 0, ratio = Fin 0,
      mousedown = False, keydown = None, sliderdown = False, disabled = False,
      transition = False, thumb_left = None, aria_valuenow = Fin 0,
      touchmove_listeners = 0, container_marginLeft = cm, selector_paddingLeft = sp,
      selector_marginLeft = sm, emitted = []\<rparr>"

subsection \<open>The methods\<close>

definition disable :: "slider \<Rightarrow> slider" where
  "disable s = s\<lparr>disabled := True\<rparr>"

definition enable :: "slider \<Rightarrow> slider" where
  "enable s = s\<lparr>disabled := False\<rparr>"

text \<open>\<^verbatim>\<open>setWidth\<close> also writes the width into the track's style, which nothing reads back.\<close>

definition setWidth :: "jsnum \<Rightarrow> slider \<Rightarrow> slider" where
  "setWidth v s = s\<lparr>trackWidth := v\<rparr>"

definition getWidth :: "slider \<Rightarrow> jsnum" where
  "getWidth s = trackWidth s"

text \<open>
  \<^verbatim>\<open>getPointerX\<close> (lines 274-283). A touch list is an object and so truthy even when it
  is empty; reading \<^verbatim>\<open>pageX\<close> of its missing first element throws.
\<close>

definition getPointerX :: "pointer_event \<Rightarrow> error + jsnum" where
  "getPointerX e =
     (case touches e of
        Some [] \<Rightarrow> Inl TypeError
      | Some (t # _) \<Rightarrow> Inr t
      | None \<Rightarrow> Inr (clientX e))"

text \<open>
  Lines 210-226 of \<^verbatim>\<open>setPosition\<close>: the pixel value computed from the argument.
  \<open>Inr None\<close> is the early \<^verbatim>\<open>return\<close> of line 215, \<open>Inl\<close> an exception.
\<close>

definition pixel_of :: "jsval \<Rightarrow> slider \<Rightarrow> error + jsnum option" where
  "pixel_of position s =
     (case position of
        Str str \<Rightarrow> Inr (Some (parseInt_string str))
      | Num n \<Rightarrow> Inr (Some (parseInt_number n))
      | Obj e \<Rightarrow>
          if \<not> mousedown s \<and> ev_type e = ''mousemove'' then Inr None
          else (case getPointerX e of
                  Inl err \<Rightarrow> Inl err
                | Inr x \<Rightarrow>
                    Inr (Some (jsub (jsub (jsub (jsub x TRACK_OFFSET)
                      (parseInt_string (container_marginLeft s)))
                      (parseInt_string (selector_paddingLeft s)))
                      (parseInt_string (selector_marginLeft s)))))
      | Null \<Rightarrow> Inl TypeError
      | Other \<Rightarrow> Inr (Some (Fin 0)))"

text \<open>
  The assignment \<^verbatim>\<open>thumb.style.left = v + 'px'\<close> (line 242). For NaN and the infinities
  the string is \<^verbatim>\<open>NaNpx\<close> or \<^verbatim>\<open>Infinitypx\<close>, which is not a length: the style drops
  the declaration and keeps the value it had.
\<close>

definition assign_left :: "jsnum \<Rightarrow> jsnum option \<Rightarrow> jsnum option" where
  "assign_left v old = (case v of Fin x \<Rightarrow> Some (Fin x) | _ \<Rightarrow> old)"

text \<open>
  \<^verbatim>\<open>setPosition(position, animate, resize)\<close> (lines 204-251). \<open>animate\<close> stands for
  \<^verbatim>\<open>animate === true\<close> and \<open>resize\<close> for the truthiness of the third argument.
\<close>

definition setPosition :: "jsval \<Rightarrow> bool \<Rightarrow> bool \<Rightarrow> slider \<Rightarrow> error + slider" where
  "setPosition position animate resize s =
     (if disabled s then Inr s
      else case pixel_of position s of
        Inl err \<Rightarrow> Inl err
      | Inr None \<Rightarrow> Inr s
      | Inr (Some raw) \<Rightarrow>
          let pos = constrain raw (Fin 0) (getWidth s);
              s1 = s\<lparr>transition := animate\<rparr>;
              s2 = (if \<not> resize then s1\<lparr>ratio := jdiv pos (getWidth s1)\<rparr> else s1);
              s3 = s2\<lparr>thumb_left := assign_left (jadd pos THUMB_OFFSET) (thumb_left s2)\<rparr>;
              percentage = Math_round (jmul (jdiv pos (getWidth s3)) (Fin 100));
              s4 = s3\<lparr>aria_valuenow := percentage\<rparr>
          in Inr (s4\<lparr>emitted := emitted s4 @ [Update pos percentage]\<rparr>))"

text \<open>
  \<^verbatim>\<open>getPosition\<close> (lines 252-254): \<^verbatim>\<open>parseInt\<close> of the style string, which reads the
  number in front of \<^verbatim>\<open>px\<close>, less the thumb offset; 0 while the style is empty.
\<close>

definition getPosition :: "slider \<Rightarrow> jsnum" where
  "getPosition s =
     (case thumb_left s of
        None \<Rightarrow> Fin 0
      | Some v \<Rightarrow> jsub (parseInt_number v) THUMB_OFFSET)"

text \<open>\<^verbatim>\<open>snap\<close> (lines 258-273).\<close>

definition snapIndex :: "slider \<Rightarrow> jsnum" where
  "snapIndex s = Math_round (map_agamotto (ratio s) (Fin 0) (Fin 1) (Fin 0) (opt_size s))"

definition snap :: "slider \<Rightarrow> error + slider" where
  "snap s =
     (case (if opt_snap s
            then setPosition (Num (jdiv (jmul (snapIndex s) (getWidth s)) (opt_size s)))
                   True False s
            else Inr s) of
        Inl err \<Rightarrow> Inl err
      | Inr s1 \<Rightarrow>
          if sliderdown s1
          then Inr (s1\<lparr>emitted := emitted s1 @ [XAPIInteracted, XAPICompleted],
                       sliderdown := False\<rparr>)
          else Inr s1)"

text \<open>
  \<^verbatim>\<open>resize\<close> (lines 285-287); \<open>offsetWidth\<close> is \<^verbatim>\<open>container.offsetWidth\<close>, read from the
  layout. The rest of the method places ticks and labels and is left out.
\<close>

definition resize :: "jsnum \<Rightarrow> slider \<Rightarrow> error + slider" where
  "resize offsetWidth s =
     (let s1 = setWidth (jsub (parseInt_number offsetWidth) (jmul (Fin 2) TRACK_OFFSET)) s
      in setPosition (Num (jmul (getWidth s1) (ratio s1))) False True s1)"

subsection \<open>The listeners\<close>

text \<open>
  What reaches the slider: the DOM events the constructor listens to (lines 92-160) and the
  calls its parent makes. A mouse event carries its \<^verbatim>\<open>clientX\<close>, a touch event the
  \<^verbatim>\<open>pageX\<close> of its touch points, a key event \<^verbatim>\<open>which\<close> and \<^verbatim>\<open>keyCode\<close> (0 when
  absent). Clicks on ticks are left out with the ticks.
\<close>

datatype event =
    MouseMove jsnum
  | MouseUp
  | MouseDownTrack jsnum
  | MouseDownThumb jsnum
  | TouchStart "jsnum list"
  | TouchMove "jsnum list"
  | TouchEnd
  | KeyDown nat nat
  | KeyUp
  | CallResize jsnum
  | CallEnable
  | CallDisable

text \<open>
  A listener that throws stops where it is: \<open>attempt r s\<close> is the state after a call with
  result \<open>r\<close>, made in state \<open>s\<close>. (\<open>setPosition\<close> throws before it changes anything.)
\<close>

definition attempt :: "error + slider \<Rightarrow> slider \<Rightarrow> slider" where
  "attempt r s = (case r of Inl _ \<Rightarrow> s | Inr s' \<Rightarrow> s')"

definition mouse_event :: "string \<Rightarrow> jsnum \<Rightarrow> pointer_event" where
  "mouse_event ty x = \<lparr>ev_type = ty, touches = None, clientX = x\<rparr>"

definition touch_event :: "string \<Rightarrow> jsnum list \<Rightarrow> pointer_event" where
  "touch_event ty xs = \<lparr>ev_type = ty, touches = Some xs, clientX = NaN\<rparr>"

text \<open>
  The bodies of the two branches of the key-down listener (lines 145-146 and 150-151):
  one step of \<^verbatim>\<open>0.01 * parseInt(getWidth())\<close> to the left or to the right.
\<close>

definition key_left :: "slider \<Rightarrow> slider" where
  "key_left s =
     (let s1 = s\<lparr>keydown := Some 37\<rparr>
      in attempt (setPosition
           (Num (jsub (getPosition s1)
                  (jmul (fl (1 / 100)) (parseInt_number (getWidth s1)))))
           False False s1) s1)"

definition key_right :: "slider \<Rightarrow> slider" where
  "key_right s =
     (let s1 = s\<lparr>keydown := Some 39\<rparr>
      in attempt (setPosition
           (Num (jadd (getPosition s1)
                  (jmul (fl (1 / 100)) (parseInt_number (getWidth s1)))))
           False False s1) s1)"

fun on_event :: "event \<Rightarrow> slider \<Rightarrow> slider" where
  "on_event (MouseMove x) s =
     attempt (setPosition (Obj (mouse_event ''mousemove'' x)) False False s) s"
| "on_event MouseUp s =
     (let s1 = s\<lparr>mousedown := False\<rparr> in attempt (snap s1) s1)"
| "on_event (MouseDownTrack x) s =
     (let s1 = s\<lparr>mousedown := True, sliderdown := True\<rparr>
      in attempt (setPosition (Obj (mouse_event ''mousedown'' x)) False False s1) s1)"
| "on_event (MouseDownThumb x) s =
     (let s1 = s\<lparr>mousedown := True, sliderdown := True\<rparr>
      in attempt (setPosition (Obj (mouse_event ''mousedown'' x)) False False s1) s1)"
| "on_event (TouchStart xs) s =
     (case setPosition (Obj (touch_event ''touchstart'' xs)) False False s of
        Inl _ \<Rightarrow> s
      | Inr s1 \<Rightarrow> s1\<lparr>touchmove_listeners := Suc (touchmove_listeners s1)\<rparr>)"
| "on_event (TouchMove xs) s =
     ((\<lambda>t. attempt (setPosition (Obj (touch_event ''touchmove'' xs)) False False t) t)
        ^^ touchmove_listeners s) s"
| "on_event TouchEnd s = attempt (snap s) s"
| "on_event (KeyDown which keyCode) s =
     (let key = (if which \<noteq> 0 then which else keyCode);
          s1 = (if key = 37 \<and> (keydown s = None \<or> keydown s = Some 37)
                then key_left s else s);
          s2 = (if key = 39 \<and> (keydown s1 = None \<or> keydown s1 = Some 39)
                then key_right s1 else s1)
      in s2)"
| "on_event KeyUp s =
     (case snap s of Inl _ \<Rightarrow> s | Inr s1 \<Rightarrow> s1\<lparr>keydown := None\<rparr>)"
| "on_event (CallResize offsetWidth) s =
     attempt (resize offsetWidth s)
       (setWidth (jsub (parseInt_number offsetWidth) (jmul (Fin 2) TRACK_OFFSET)) s)"
| "on_event CallEnable s = enable s"
| "on_event CallDisable s = disable s"

text \<open>A sequence of events, handled one after the other.\<close>

fun run :: "event list \<Rightarrow> slider \<Rightarrow> slider" where
  "run [] s = s"
| "run (e # es) s = run es (on_event e s)"

definition is_press :: "event \<Rightarrow> bool" where
  "is_press e = (case e of MouseDownTrack _ \<Rightarrow> True | MouseDownThumb _ \<Rightarrow> True | _ \<Rightarrow> False)"

text \<open>The calls to the parent among what was sent out, in the order they were made.\<close>

definition xapi :: "slider \<Rightarrow> notification list" where
  "xapi s = filter (\<lambda>n. n = XAPIInteracted \<or> n = XAPICompleted) (emitted s)"

text \<open>\<^verbatim>\<open>0 <= p && p <= w\<close>, the invariant of the position.\<close>

definition within_track :: "jsnum \<Rightarrow> jsnum \<Rightarrow> bool" where
  "within_track p w = (jle (Fin 0) p \<and> jle p w)"

text \<open>
  What a stretch of events did to the pending interaction: the flag \<open>sliderdown\<close> can
  only have been cleared, and the calls to the parent grew by the pair exactly when it was.
\<close>

definition released :: "slider \<Rightarrow> slider \<Rightarrow> bool" where
  "released s s' = ((sliderdown s' \<longrightarrow> sliderdown s) \<and>
     xapi s' = xapi s @ (if sliderdown s \<and> \<not> sliderdown s'
                          then [XAPIInteracted, XAPICompleted] else []))"

text \<open>
  States to evaluate on: a fresh slider with snapping on, four steps and no margins; the
  same on a track of 200 pixels; that one with the thumb set to pixel 100; with the ratio
  \<^verbatim>\<open>0.3\<close>; a track of 100 pixels with three steps and the ratio \<^verbatim>\<open>0.3\<close>; and the 200
  pixel track with no steps at all.
\<close>

definition fresh :: slider where
  "fresh = init True (Fin 4) ''0px'' ''0px'' ''0px''"

definition track200 :: slider where
  "track200 = setWidth (Fin 200) fresh"

definition at100 :: slider where
  "at100 = attempt (setPosition (Num (Fin 100)) False False track200) track200"

definition snap_example :: slider where
  "snap_example = track200\<lparr>ratio := fl (3 / 10)\<rparr>"

definition thirds :: slider where
  "thirds = (setWidth (Fin 100) fresh)\<lparr>opt_size := Fin 3, ratio := fl (3 / 10)\<rparr>"

definition no_steps :: slider where
  "no_steps = track200\<lparr>opt_size := Fin 0, ratio := fl (3 / 10)\<rparr>"

text \<open>A track of 22 pixels with the thumb set to pixel 15.\<close>

definition track22 :: slider where
  "track22 = attempt (setPosition (Num (Fin 15)) False False (setWidth (Fin 22) fresh))
               (setWidth (Fin 22) fresh)"

text \<open>A track of 2000000 pixels with the thumb set to pixel 1.\<close>

definition wide :: slider where
  "wide = attempt (setPosition (Num (Fin 1)) False False (setWidth (Fin 2000000) fresh))
            (setWidth (Fin 2000000) fresh)"

section \<open>Properties\<close>

subsection \<open>Rounding to a double\<close>

lemmas fl_eval = fl_def round_at_def pack_def lg2_def lg_up.simps lg_down.simps pow2_def
  round_even_def

lemmas parse_eval = parseInt_number_def plain_decimal_def trunc_def leading_digit_def
  scaled_digit_def shortest_digit_def scale_up.simps scale_down.simps

lemmas eval_defs = track200_def fresh_def init_def setWidth_def disable_def attempt_def
  setPosition_def pixel_of_def getWidth_def Let_def assign_left_def
  constrain_def Math_min_def Math_max_def getPosition_def THUMB_OFFSET_def TRACK_OFFSET_def
  jsub_def snap_def snapIndex_def map_agamotto_def resize_def at100_def snap_example_def
  thirds_def no_steps_def track22_def

lemma floor_divide_numeral_rat [simp]:
  "\<lfloor>numeral a / numeral b :: rat\<rfloor> = numeral a div numeral b"
  by (metis floor_divide_of_int_eq of_int_numeral)

lemma floor_one_divide_numeral_rat [simp]:
  "\<lfloor>1 / numeral b :: rat\<rfloor> = 1 div numeral b"
  by (metis floor_divide_of_int_eq of_int_numeral of_int_1)

lemma lg_up_le_0: "lg_up x \<le> 0"
proof (induction x rule: lg_up.induct)
  case (1 x)
  show ?case
  proof (cases "0 < x \<and> x < 1")
    case True
    then have "lg_up x = lg_up (2 * x) - 1" using lg_up.simps [of x] by auto
    then show ?thesis using 1 [OF True] by simp
  next
    case False
    then have "lg_up x = 0" using lg_up.simps [of x] by auto
    then show ?thesis by simp
  qed
qed

lemma lg_down_le: "x < 2 ^ Suc n \<Longrightarrow> lg_down x \<le> int n"
proof (induction x arbitrary: n rule: lg_down.induct)
  case (1 x)
  show ?case
  proof (cases "2 \<le> x")
    case True
    then have e: "lg_down x = lg_down (x / 2) + 1" using lg_down.simps [of x] by auto
    from True "1.prems" obtain k where k: "n = Suc k"
      by (cases n) auto
    have "x / 2 < 2 ^ Suc k" using "1.prems" k by simp
    then have "lg_down (x / 2) \<le> int k" by (rule "1.IH" [OF True])
    then show ?thesis using e k by simp
  next
    case False
    then have "lg_down x = 0" using lg_down.simps [of x] by auto
    then show ?thesis by simp
  qed
qed

lemma lg2_le_52: "x < 2 ^ 53 \<Longrightarrow> lg2 x \<le> 52"
  using lg_up_le_0 [of x] lg_down_le [of x 52] by (simp add: lg2_def)

lemma round_even_ge: "of_int K \<le> q \<Longrightarrow> K \<le> round_even q"
proof -
  assume "of_int K \<le> q"
  then have "K \<le> \<lfloor>q\<rfloor>" by (simp add: le_floor_iff)
  then show ?thesis by (simp add: round_even_def Let_def)
qed

lemma round_even_le: "q \<le> of_int K \<Longrightarrow> round_even q \<le> K"
proof (cases "q = of_int K")
  case True
  then show ?thesis by (simp add: round_even_def Let_def)
next
  case False
  assume "q \<le> of_int K"
  with False have "q < of_int K" by simp
  then have "\<lfloor>q\<rfloor> < K" by (simp add: floor_less_iff)
  then show ?thesis by (simp add: round_even_def Let_def)
qed

lemma pow2_below: "e \<le> 52 \<Longrightarrow> pow2 (e - 52) = 1 / 2 ^ nat (52 - e)"
  by (cases "e = 52") (simp_all add: pow2_def)

text \<open>
  Rounding keeps a number below \<open>2\<^sup>5\<^sup>3\<close> between the whole numbers it lies between: there
  the doubles are the multiples of a power of two that is at most 1, and the whole
  numbers are among them.
\<close>

lemma fl_between_strict:
  assumes "0 < x" and "of_int M \<le> x" and "x \<le> of_int N" and "x < 2 ^ 53"
  shows "\<exists>y. fl x = Fin y \<and> of_int M \<le> y \<and> y \<le> of_int N"
proof -
  define e where "e = max (lg2 \<bar>x\<bar>) (- 1022)"
  define j where "j = nat (52 - e)"
  define m where "m = round_even (\<bar>x\<bar> / pow2 (e - 52))"
  have e52: "e \<le> 52" using lg2_le_52 [of x] assms(1,4) by (simp add: e_def)
  have u: "pow2 (e - 52) = 1 / 2 ^ j" unfolding j_def by (rule pow2_below [OF e52])
  have m: "m = round_even (x * 2 ^ j)" using assms(1) by (simp add: m_def u)
  have "of_int (M * 2 ^ j) \<le> x * 2 ^ j" using assms(2) by simp
  then have lo: "M * 2 ^ j \<le> m" unfolding m by (rule round_even_ge)
  have "x * 2 ^ j \<le> of_int (N * 2 ^ j)" using assms(3) by simp
  then have hi: "m \<le> N * 2 ^ j" unfolding m by (rule round_even_le)
  have "fl x = round_at e x" using assms(1) by (simp add: fl_def e_def)
  also have "\<dots> = pack e m x" by (simp add: round_at_def m_def)
  also have "\<dots> = Fin (of_int m / 2 ^ j)" using assms(1) e52 by (simp add: pack_def u)
  finally have f: "fl x = Fin (of_int m / 2 ^ j)" .
  have "rat_of_int (M * 2 ^ j) \<le> of_int m" using lo by (simp only: of_int_le_iff)
  then have l: "of_int M \<le> rat_of_int m / 2 ^ j" by (simp add: pos_le_divide_eq)
  have "rat_of_int m \<le> of_int (N * 2 ^ j)" using hi by (simp only: of_int_le_iff)
  then have h: "rat_of_int m / 2 ^ j \<le> of_int N" by (simp add: pos_divide_le_eq)
  show ?thesis using f l h by blast
qed

lemma fl_two_53: "fl 9007199254740992 = Fin 9007199254740992"
  by (simp add: fl_eval)

lemma fl_between:
  assumes "0 \<le> M" and "of_int M \<le> x" and "x \<le> of_int N" and "of_int N \<le> (2::rat) ^ 53"
  shows "\<exists>y. fl x = Fin y \<and> of_int M \<le> y \<and> y \<le> of_int N"
proof (cases "x = 0")
  case True
  then show ?thesis using assms(1,2,3) by (simp add: fl_def)
next
  case False
  have "(0::rat) \<le> of_int M" using assms(1) by simp
  then have pos: "0 < x" using False assms(2) by linarith
  show ?thesis
  proof (cases "x < 2 ^ 53")
    case True
    from fl_between_strict [OF pos assms(2,3) True] show ?thesis .
  next
    case False
    then have x: "x = 2 ^ 53" using assms(3,4) by simp
    then have N: "rat_of_int N = 2 ^ 53" using assms(3,4) by simp
    show ?thesis using x N assms(2) by (simp add: fl_two_53)
  qed
qed

text \<open>A whole number up to \<open>2\<^sup>5\<^sup>3\<close> is a double.\<close>

lemma fl_int: "0 \<le> k \<Longrightarrow> rat_of_int k \<le> 2 ^ 53 \<Longrightarrow> fl (of_int k) = Fin (of_int k)"
  using fl_between [of k "of_int k" k] by auto

subsection \<open>Arithmetic and the accepted call\<close>

text \<open>
  In the range of plain decimal notation, up to \<open>2\<^sup>5\<^sup>3\<close>, \<^verbatim>\<open>parseInt\<close> of a number is
  its floor.
\<close>

lemma parseInt_number_floor:
  assumes "0 \<le> p" and "p = 0 \<or> 1 / 10 ^ 6 \<le> p" and "p \<le> 2 ^ 53"
  shows "parseInt_number (Fin p) = Fin (of_int \<lfloor>p\<rfloor>)"
proof (cases "p = 0")
  case True
  then show ?thesis by (simp add: parseInt_number_def)
next
  case False
  then have lo: "1 / 10 ^ 6 \<le> p" using assms(2) by simp
  have "p < 10 ^ 21" using assms(3) by simp
  then have pd: "plain_decimal \<bar>p\<bar>" using lo assms(1) by (simp add: plain_decimal_def)
  have f0: "0 \<le> \<lfloor>p\<rfloor>" using assms(1) by simp
  have "rat_of_int \<lfloor>p\<rfloor> \<le> p" by simp
  then have f1: "rat_of_int \<lfloor>p\<rfloor> \<le> 2 ^ 53" using assms(3) by linarith
  show ?thesis
    using False pd assms(1) fl_int [OF f0 f1] by (simp add: parseInt_number_def trunc_def)
qed

lemma constrain_Fin: "constrain (Fin a) (Fin 0) (Fin w) = Fin (min w (max 0 a))"
  by (simp add: constrain_def Math_min_def Math_max_def min_def max_def)

text \<open>
  Writing a whole pixel position into the style and reading it back: up to \<open>2\<^sup>5\<^sup>3 - 8\<close> the
  sum with the thumb offset, the string and the difference are all exact.
\<close>

lemma offset_add:
  assumes "0 \<le> k" and "rat_of_int k + 8 \<le> 2 ^ 53"
  shows "jadd (Fin (of_int k)) THUMB_OFFSET = Fin (of_int k + 8)"
proof -
  have "fl (of_int (k + 8)) = Fin (of_int (k + 8))"
    using assms by (intro fl_int) simp_all
  then show ?thesis by (simp add: THUMB_OFFSET_def)
qed

lemma getPosition_stored:
  assumes "thumb_left s = Some (Fin (of_int k + 8))" and "0 \<le> k"
    and "rat_of_int k + 8 \<le> 2 ^ 53"
  shows "getPosition s = Fin (of_int k)"
proof -
  have "parseInt_number (Fin (of_int (k + 8))) = Fin (of_int \<lfloor>rat_of_int (k + 8)\<rfloor>)"
    using assms(2,3) by (intro parseInt_number_floor) simp_all
  then have p: "parseInt_number (Fin (of_int k + 8)) = Fin (of_int k + 8)" by simp
  have "rat_of_int k \<le> 2 ^ 53" using assms(3) by linarith
  then have "fl (of_int k) = Fin (of_int k)" using assms(2) by (intro fl_int)
  then show ?thesis
    using assms(1) p by (simp add: getPosition_def THUMB_OFFSET_def jsub_def)
qed

text \<open>
  The state after a call that is neither ignored nor thrown out of: everything
  \<^verbatim>\<open>setPosition\<close> does from line 227 on, in one record update.
\<close>

lemma setPosition_accepted:
  assumes "\<not> disabled s" and "pixel_of i s = Inr (Some raw)"
  shows "setPosition i a r s =
    Inr (s\<lparr>transition := a,
           ratio := (if r then ratio s
                     else jdiv (constrain raw (Fin 0) (trackWidth s)) (trackWidth s)),
           thumb_left :=
             assign_left (jadd (constrain raw (Fin 0) (trackWidth s)) THUMB_OFFSET)
               (thumb_left s),
           aria_valuenow :=
             Math_round (jmul (jdiv (constrain raw (Fin 0) (trackWidth s)) (trackWidth s))
               (Fin 100)),
           emitted := emitted s @ [Update (constrain raw (Fin 0) (trackWidth s))
             (Math_round (jmul (jdiv (constrain raw (Fin 0) (trackWidth s)) (trackWidth s))
               (Fin 100)))]\<rparr>)"
  using assms by (simp add: setPosition_def Let_def getWidth_def)

lemma pixel_of_Num: "pixel_of (Num n) s = Inr (Some (parseInt_number n))"
  by (simp add: pixel_of_def)

lemma setPosition_cases:
  assumes "setPosition i a r s = Inr s'"
  shows "s' = s \<or> (\<exists>raw. \<not> disabled s \<and> pixel_of i s = Inr (Some raw))"
  using assms by (auto simp: setPosition_def split: if_splits sum.splits option.splits)

subsection \<open>Setting and reading the position\<close>

text \<open>
  C1 (amended). On an enabled slider with a track of width \<open>w > 0\<close>, for a pixel input
  \<open>p\<close> in \<open>[0, w]\<close> that is 0 or at least \<open>10\<^sup>-\<^sup>6\<close>, and with \<open>p + 8 \<le> 2\<^sup>5\<^sup>3\<close>,
  \<^verbatim>\<open>setPosition(p, animate)\<close> followed by \<^verbatim>\<open>getPosition()\<close> returns the floor of \<open>p\<close>,
  which is \<^verbatim>\<open>clamp(floor(p), 0, trackWidth)\<close>: fractional input is cut, not rounded.
\<close>

theorem C1_set_then_get:
  assumes "\<not> disabled s" and "trackWidth s = Fin w" and "0 < w"
    and "0 \<le> p" and "p \<le> w" and "p = 0 \<or> 1 / 10 ^ 6 \<le> p" and "p + 8 \<le> 2 ^ 53"
  shows "\<exists>s'. setPosition (Num (Fin p)) animate rs s = Inr s'
           \<and> getPosition s' = Fin (of_int \<lfloor>p\<rfloor>)
           \<and> getPosition s' = constrain (Fin (of_int \<lfloor>p\<rfloor>)) (Fin 0) (Fin w)"
proof -
  have f0: "0 \<le> \<lfloor>p\<rfloor>" using assms(4) by simp
  have f1: "rat_of_int \<lfloor>p\<rfloor> \<le> p" by simp
  have f8: "rat_of_int \<lfloor>p\<rfloor> + 8 \<le> 2 ^ 53" using f1 assms(7) by linarith
  have p53: "p \<le> 2 ^ 53" using assms(7) by linarith
  have pi: "parseInt_number (Fin p) = Fin (of_int \<lfloor>p\<rfloor>)"
    using assms(4,6) p53 by (rule parseInt_number_floor)
  have c: "constrain (Fin (of_int \<lfloor>p\<rfloor>)) (Fin 0) (Fin w) = Fin (of_int \<lfloor>p\<rfloor>)"
  proof -
    have "rat_of_int \<lfloor>p\<rfloor> \<le> w" using f1 assms(5) by linarith
    then show ?thesis using f0 by (simp add: constrain_Fin min_def max_def)
  qed
  let ?s' = "s\<lparr>transition := animate,
           ratio := (if rs then ratio s else jdiv (Fin (of_int \<lfloor>p\<rfloor>)) (Fin w)),
           thumb_left := Some (Fin (of_int \<lfloor>p\<rfloor> + 8)),
           aria_valuenow := Math_round (jmul (jdiv (Fin (of_int \<lfloor>p\<rfloor>)) (Fin w)) (Fin 100)),
           emitted := emitted s @ [Update (Fin (of_int \<lfloor>p\<rfloor>))
             (Math_round (jmul (jdiv (Fin (of_int \<lfloor>p\<rfloor>)) (Fin w)) (Fin 100)))]\<rparr>"
  have sp: "setPosition (Num (Fin p)) animate rs s = Inr ?s'"
    using setPosition_accepted [OF assms(1) pixel_of_Num, of "Fin p" animate rs]
      pi c assms(2) offset_add [OF f0 f8]
    by (simp add: assign_left_def)
  have "thumb_left ?s' = Some (Fin (of_int \<lfloor>p\<rfloor> + 8))" by simp
  then have gp: "getPosition ?s' = Fin (of_int \<lfloor>p\<rfloor>)"
    using f0 f8 by (rule getPosition_stored)
  show ?thesis using sp gp c by (intro exI [of _ ?s']) simp
qed


theorem C1_set_then_get_witness:
  "\<not> disabled track200 \<and> trackWidth track200 = Fin 200 \<and>
   (\<exists>s'. setPosition (Num (Fin (101 / 2))) False False track200 = Inr s'
      \<and> getPosition s' = Fin 50)"
  using C1_set_then_get [of track200 200 "101 / 2" False False]
  by (auto simp: track200_def fresh_def init_def setWidth_def)

text \<open>
  As stated, for every state and every \<open>p\<close> in \<open>[0, trackWidth]\<close>, C1 fails twice over. The
  number \<^verbatim>\<open>0.0000005\<close> is printed as \<^verbatim>\<open>5e-7\<close>, so \<^verbatim>\<open>parseInt\<close> reads 5 and the
  thumb goes to pixel 5, not to \<^verbatim>\<open>floor(p) = 0\<close>. And on a disabled slider the call
  is ignored (line 205): after \<^verbatim>\<open>setPosition(50)\<close> the position is still 0.
\<close>

theorem C1_counterexample:
  "fl (1 / 2000000) = Fin (4722366482869645 / 9444732965739290427392)
   \<and> getPosition (attempt (setPosition (Num (fl (1 / 2000000))) False False track200) track200)
       = Fin 5
   \<and> constrain (Fin (of_int \<lfloor>4722366482869645 / 9444732965739290427392 :: rat\<rfloor>)) (Fin 0)
        (trackWidth track200) = Fin 0
   \<and> getPosition (attempt (setPosition (Num (Fin 50)) False False (disable track200))
        (disable track200)) = Fin 0
   \<and> constrain (Fin (of_int \<lfloor>50 :: rat\<rfloor>)) (Fin 0) (trackWidth (disable track200)) = Fin 50"
  by (simp add: eval_defs parse_eval fl_eval)

subsection \<open>The percentage of a notification\<close>

lemma constrain_zero_width: "jdiv (constrain raw (Fin 0) (Fin 0)) (Fin 0) = NaN"
  by (cases raw) (simp_all add: constrain_def Math_min_def Math_max_def)

text \<open>
  C2 (amended). Every change notification emitted by \<^verbatim>\<open>setPosition\<close> carries
  \<^verbatim>\<open>percentage == Math.round(position / trackWidth * 100)\<close>, the quotient and the product
  each rounded to a double as JavaScript computes them. When \<^verbatim>\<open>trackWidth == 0\<close> the
  division is not guarded: the quotient is \<^verbatim>\<open>0 / 0\<close>, the percentage is NaN and, unless
  the call is a resize, the ratio becomes NaN.
\<close>

theorem C2_percentage:
  assumes "setPosition i a r s = Inr s'" and "emitted s' = emitted s @ [Update pos pc]"
  shows "pc = Math_round (jmul (jdiv pos (trackWidth s)) (Fin 100))
     \<and> (trackWidth s = Fin 0 \<longrightarrow> pc = NaN \<and> (\<not> r \<longrightarrow> ratio s' = NaN))"
proof -
  from assms(2) have "s' \<noteq> s" by auto
  with setPosition_cases [OF assms(1)] obtain raw
    where en: "\<not> disabled s" and px: "pixel_of i s = Inr (Some raw)" by blast
  let ?pos = "constrain raw (Fin 0) (trackWidth s)"
  let ?pc = "Math_round (jmul (jdiv ?pos (trackWidth s)) (Fin 100))"
  have s': "s' = s\<lparr>transition := a,
           ratio := (if r then ratio s else jdiv ?pos (trackWidth s)),
           thumb_left := assign_left (jadd ?pos THUMB_OFFSET) (thumb_left s),
           aria_valuenow := ?pc,
           emitted := emitted s @ [Update ?pos ?pc]\<rparr>"
    using assms(1) setPosition_accepted [OF en px, of a r] by simp
  have e: "pos = ?pos" "pc = ?pc" using assms(2) s' by auto
  have one: "pc = Math_round (jmul (jdiv pos (trackWidth s)) (Fin 100))"
    using e by simp
  have two: "trackWidth s = Fin 0 \<longrightarrow> pc = NaN \<and> (\<not> r \<longrightarrow> ratio s' = NaN)"
    using e s' by (auto simp: constrain_zero_width)
  show ?thesis using one two by blast
qed

text \<open>
  At position 29 of 200 the percentage is 14: \<^verbatim>\<open>29 / 200 * 100\<close> is
  \<open>14.499999999999998\<close> in doubles.
\<close>

theorem C2_percentage_witness:
  "setPosition (Num (Fin 29)) False False track200
     = Inr (track200\<lparr>ratio := Fin (5224175567749775 / 36028797018963968),
             thumb_left := Some (Fin 37),
             aria_valuenow := Fin 14, emitted := [Update (Fin 29) (Fin 14)]\<rparr>)
   \<and> Fin 14 = Math_round (jmul (jdiv (Fin 29) (trackWidth track200)) (Fin 100))"
  using C2_percentage [of "Num (Fin 29)" False False track200
      "track200\<lparr>ratio := Fin (5224175567749775 / 36028797018963968),
             thumb_left := Some (Fin 37),
             aria_valuenow := Fin 14, emitted := [Update (Fin 29) (Fin 14)]\<rparr>"
      "Fin 29" "Fin 14"]
  by (simp add: eval_defs parse_eval fl_eval)

text \<open>
  As stated, C2 fails on a track of width 0, the state the constructor leaves:
  \<^verbatim>\<open>setPosition(0)\<close> emits the percentage NaN, not 0, and sets the ratio to NaN.
\<close>

theorem C2_counterexample:
  "trackWidth fresh = Fin 0
   \<and> emitted (attempt (setPosition (Num (Fin 0)) False False fresh) fresh)
       = [Update (Fin 0) NaN]
   \<and> ratio (attempt (setPosition (Num (Fin 0)) False False fresh) fresh) = NaN"
  by (simp add: eval_defs parse_eval fl_eval)

subsection \<open>The ratio across a resize\<close>

text \<open>
  C5. A call of \<^verbatim>\<open>setPosition\<close> with the resize argument set leaves the stored ratio
  as it was, whatever the input and whether or not the call is accepted; so does
  \<^verbatim>\<open>resize()\<close>, the one place that sets the argument.
\<close>

theorem C5_resize_keeps_ratio:
  "(\<forall>s'. setPosition i a True s = Inr s' \<longrightarrow> ratio s' = ratio s)
   \<and> (\<forall>s'. resize offsetWidth s = Inr s' \<longrightarrow> ratio s' = ratio s)"
  by (auto simp: resize_def setWidth_def setPosition_def Let_def
      split: if_splits sum.splits option.splits)

theorem C5_resize_keeps_ratio_witness:
  "(\<exists>s'. setPosition (Num (Fin 50)) False True at100 = Inr s' \<and> ratio s' = Fin (1 / 2))
   \<and> (\<exists>s'. resize (Fin 333) at100 = Inr s' \<and> ratio s' = Fin (1 / 2))"
proof -
  have r: "ratio at100 = Fin (1 / 2)" by (simp add: eval_defs parse_eval fl_eval)
  have e1: "\<exists>s'. setPosition (Num (Fin 50)) False True at100 = Inr s'"
    by (simp add: setPosition_def pixel_of_Num Let_def)
  have e2: "\<exists>s'. resize (Fin 333) at100 = Inr s'"
    by (simp add: resize_def setPosition_def pixel_of_Num Let_def)
  show ?thesis
    using C5_resize_keeps_ratio [of "Num (Fin 50)" False at100 "Fin 333"] r e1 e2 by auto
qed

subsection \<open>Moves without a press\<close>

lemma pixel_of_touch:
  "ty \<noteq> ''mousemove'' \<Longrightarrow>
   pixel_of (Obj (touch_event ty (t # ts))) s =
     Inr (Some (jsub (jsub (jsub (jsub t TRACK_OFFSET)
       (parseInt_string (container_marginLeft s)))
       (parseInt_string (selector_paddingLeft s)))
       (parseInt_string (selector_marginLeft s))))"
  by (simp add: pixel_of_def touch_event_def getPointerX_def)

text \<open>
  C8 (amended). While \<open>mousedown\<close> is false, \<^verbatim>\<open>setPosition\<close> with an event of type
  \<^verbatim>\<open>mousemove\<close> returns the state as it is: position, ratio and the log of
  notifications are unchanged, so the document's \<^verbatim>\<open>mousemove\<close> listener does nothing
  then. The test of line 214 names \<^verbatim>\<open>mousemove\<close> only: a \<^verbatim>\<open>touchmove\<close> with a touch
  point is accepted by an enabled slider whatever \<open>mousedown\<close> is, and emits a change
  notification.
\<close>

theorem C8_move_without_press:
  assumes "\<not> mousedown s" and "ev_type e = ''mousemove''"
  shows "setPosition (Obj e) a r s = Inr s \<and> on_event (MouseMove x) s = s
     \<and> (\<not> disabled s \<longrightarrow>
          (\<exists>s' pos pc. setPosition (Obj (touch_event ''touchmove'' (t # ts))) a r s = Inr s'
             \<and> emitted s' = emitted s @ [Update pos pc]))"
proof -
  have one: "setPosition (Obj e) a r s = Inr s \<and> on_event (MouseMove x) s = s"
    using assms by (simp add: setPosition_def pixel_of_def attempt_def mouse_event_def)
  have two: "\<exists>s' pos pc. setPosition (Obj (touch_event ''touchmove'' (t # ts))) a r s = Inr s'
             \<and> emitted s' = emitted s @ [Update pos pc]" if en: "\<not> disabled s"
    using setPosition_accepted [OF en pixel_of_touch, of "''touchmove''" t ts a r] by simp
  show ?thesis using one two by blast
qed

theorem C8_move_without_press_witness:
  "\<not> mousedown at100
   \<and> setPosition (Obj (mouse_event ''mousemove'' (Fin 120))) False False at100 = Inr at100
   \<and> on_event (MouseMove (Fin 120)) at100 = at100"
proof -
  have h: "\<not> mousedown at100" by (simp add: eval_defs parse_eval fl_eval)
  show ?thesis
    using C8_move_without_press [OF h, of "mouse_event ''mousemove'' (Fin 120)" False False
        "Fin 120"] h
    by (simp add: mouse_event_def attempt_def)
qed

text \<open>
  As stated, for every move-type event, C8 fails for a \<^verbatim>\<open>touchmove\<close>: with \<open>mousedown\<close>
  false and the thumb at pixel 100, a \<^verbatim>\<open>touchmove\<close> at \<^verbatim>\<open>pageX\<close> 150 moves the thumb to
  134 and emits a notification, both through \<^verbatim>\<open>setPosition\<close> and through the
  listeners after a \<^verbatim>\<open>touchstart\<close>.
\<close>

theorem C8_counterexample:
  "\<not> mousedown at100 \<and> getPosition at100 = Fin 100
   \<and> getPosition (attempt (setPosition (Obj (touch_event ''touchmove'' [Fin 150]))
        False False at100) at100) = Fin 134
   \<and> emitted (attempt (setPosition (Obj (touch_event ''touchmove'' [Fin 150]))
        False False at100) at100) = [Update (Fin 100) (Fin 50), Update (Fin 134) (Fin 67)]
   \<and> \<not> mousedown (run [TouchStart [Fin 116]] at100)
   \<and> getPosition (run [TouchStart [Fin 116]] at100) = Fin 100
   \<and> getPosition (run [TouchStart [Fin 116], TouchMove [Fin 150]] at100) = Fin 134"
  by (simp add: eval_defs parse_eval fl_eval touch_event_def getPointerX_def
      parseInt_string_def is_white_def is_digit_def digit_value_def digits_value_def)

subsection \<open>The position stays on the track\<close>

lemma constrain_range:
  assumes "raw \<noteq> NaN" and "0 \<le> w"
  shows "\<exists>q. constrain raw (Fin 0) (Fin w) = Fin q \<and> 0 \<le> q \<and> q \<le> w"
  using assms by (cases raw) (auto simp: constrain_def Math_min_def Math_max_def)

text \<open>
  A position \<open>q\<close> on a track of whole width \<open>n\<close>, written into the style with the offset
  added and read back: the sum is rounded, but it stays between 8 and \<open>n + 8\<close>, so what
  \<^verbatim>\<open>getPosition\<close> reads is a whole number between 0 and \<open>n\<close>.
\<close>

lemma stored_within:
  assumes "0 \<le> q" and "q \<le> of_int n" and "rat_of_int n + 8 \<le> 2 ^ 53"
  shows "\<exists>y k. jadd (Fin q) THUMB_OFFSET = Fin y \<and> 0 \<le> k \<and> k \<le> n
           \<and> jsub (parseInt_number (Fin y)) THUMB_OFFSET = Fin (of_int k)"
proof -
  have "\<exists>y. fl (q + 8) = Fin y \<and> of_int 8 \<le> y \<and> y \<le> of_int (n + 8)"
    using assms by (intro fl_between) simp_all
  then obtain y where y: "fl (q + 8) = Fin y" "8 \<le> y" "y \<le> of_int n + 8" by auto
  have y53: "y \<le> 2 ^ 53" using y(3) assms(3) by linarith
  have p: "parseInt_number (Fin y) = Fin (of_int \<lfloor>y\<rfloor>)"
    using y(2) y53 by (intro parseInt_number_floor) simp_all
  have k0: "0 \<le> \<lfloor>y\<rfloor> - 8" using y(2) by simp
  have "rat_of_int \<lfloor>y\<rfloor> - 8 \<le> of_int n" using y(3) of_int_floor_le [of y] by linarith
  then have ky: "rat_of_int (\<lfloor>y\<rfloor> - 8) \<le> of_int n" by simp
  then have kn: "\<lfloor>y\<rfloor> - 8 \<le> n" by (simp only: of_int_le_iff)
  have "rat_of_int (\<lfloor>y\<rfloor> - 8) \<le> 2 ^ 53" using ky assms(3) by linarith
  then have "fl (of_int (\<lfloor>y\<rfloor> - 8)) = Fin (of_int (\<lfloor>y\<rfloor> - 8))" using k0 by (intro fl_int)
  then have "jsub (parseInt_number (Fin y)) THUMB_OFFSET = Fin (of_int (\<lfloor>y\<rfloor> - 8))"
    using p by (simp add: jsub_def THUMB_OFFSET_def)
  then show ?thesis
    using y(1) k0 kn
    by (intro exI [of _ y] exI [of _ "\<lfloor>y\<rfloor> - 8"]) (simp add: THUMB_OFFSET_def)
qed

text \<open>
  C9 (amended). After every accepted \<^verbatim>\<open>setPosition\<close> call whose raw pixel value is not
  NaN, on a track whose width is a whole number \<open>n\<close> with \<open>0 \<le> n \<le> 2\<^sup>5\<^sup>3 - 8\<close>, the position
  that is emitted and the one that is stored and read back by \<^verbatim>\<open>getPosition\<close> satisfy
  \<^verbatim>\<open>0 <= positionPx <= trackWidth\<close>. This holds for every input shape: number, string,
  event or anything else.
\<close>

theorem C9_position_within_track:
  assumes "\<not> disabled s" and "pixel_of i s = Inr (Some raw)" and "raw \<noteq> NaN"
    and "trackWidth s = Fin (of_int n)" and "0 \<le> n" and "rat_of_int n + 8 \<le> 2 ^ 53"
  shows "\<exists>s' pos pc. setPosition i a r s = Inr s'
           \<and> emitted s' = emitted s @ [Update pos pc]
           \<and> within_track pos (trackWidth s')
           \<and> within_track (getPosition s') (trackWidth s')"
proof -
  have n0: "(0::rat) \<le> of_int n" using assms(5) by simp
  obtain q where q: "constrain raw (Fin 0) (Fin (of_int n)) = Fin q" "0 \<le> q" "q \<le> of_int n"
    using constrain_range [OF assms(3) n0] by blast
  obtain y k where yk: "jadd (Fin q) THUMB_OFFSET = Fin y" "0 \<le> k" "k \<le> n"
      "jsub (parseInt_number (Fin y)) THUMB_OFFSET = Fin (of_int k)"
    using stored_within [OF q(2,3) assms(6)] by blast
  let ?pc = "Math_round (jmul (jdiv (Fin q) (Fin (of_int n))) (Fin 100))"
  let ?s' = "s\<lparr>transition := a,
           ratio := (if r then ratio s else jdiv (Fin q) (Fin (of_int n))),
           thumb_left := Some (Fin y),
           aria_valuenow := ?pc,
           emitted := emitted s @ [Update (Fin q) ?pc]\<rparr>"
  have sp: "setPosition i a r s = Inr ?s'"
    using setPosition_accepted [OF assms(1,2), of a r] assms(4) q(1) yk(1)
    by (simp add: assign_left_def)
  have gp: "getPosition ?s' = Fin (of_int k)"
    using yk(4) by (simp add: getPosition_def)
  have w1: "within_track (Fin q) (trackWidth ?s')"
    using q(2,3) assms(4) by (simp add: within_track_def)
  have w2: "within_track (getPosition ?s') (trackWidth ?s')"
    unfolding gp using yk(2,3) assms(4) by (simp add: within_track_def)
  show ?thesis
    using sp w1 w2 by (intro exI [of _ ?s'] exI [of _ "Fin q"] exI [of _ ?pc]) simp
qed

theorem C9_position_within_track_witness:
  "\<not> disabled track200 \<and> pixel_of (Num (Fin 250)) track200 = Inr (Some (Fin 250))
   \<and> trackWidth track200 = Fin 200
   \<and> (\<exists>s' pos pc. setPosition (Num (Fin 250)) False False track200 = Inr s'
           \<and> emitted s' = emitted track200 @ [Update pos pc]
           \<and> within_track pos (trackWidth s')
           \<and> within_track (getPosition s') (trackWidth s'))"
proof -
  have h: "\<not> disabled track200" "pixel_of (Num (Fin 250)) track200 = Inr (Some (Fin 250))"
    "trackWidth track200 = Fin (of_int 200)"
    by (simp_all add: track200_def fresh_def init_def setWidth_def pixel_of_def
        parse_eval fl_eval)
  show ?thesis
    using C9_position_within_track [OF h(1,2) _ h(3), of False False] h by simp
qed

text \<open>
  As stated, after every accepted call, C9 fails where the track width is negative, which
  \<^verbatim>\<open>resize()\<close> makes it when the container is narrower than 32 pixels: for a container
  that is not displayed \<^verbatim>\<open>offsetWidth\<close> is 0, \<^verbatim>\<open>resize()\<close> sets the width to \<open>-32\<close> and
  its \<^verbatim>\<open>setPosition\<close> call is accepted. No position lies between 0 and \<open>-32\<close>, whatever
  the clamp returns: here the position emitted and stored is \<open>-32\<close>.
\<close>

theorem C9_counterexample:
  "\<not> disabled at100
   \<and> trackWidth (attempt (resize (Fin 0) at100) at100) = Fin (- 32)
   \<and> emitted (attempt (resize (Fin 0) at100) at100)
       = [Update (Fin 100) (Fin 50), Update (Fin (- 32)) (Fin 100)]
   \<and> getPosition (attempt (resize (Fin 0) at100) at100) = Fin (- 32)
   \<and> \<not> within_track (Fin (- 32)) (Fin (- 32))
   \<and> \<not> within_track (Fin 0) (Fin (- 32))"
  by (simp add: eval_defs parse_eval fl_eval within_track_def)

subsection \<open>Snapping\<close>

text \<open>
  C10. With \<^verbatim>\<open>options.size\<close> equal to 0 the value
  \<^verbatim>\<open>snapIndex * trackWidth / options.size\<close> that \<^verbatim>\<open>snap\<close> passes to \<^verbatim>\<open>setPosition\<close> is
  NaN: for a finite ratio and width \<^verbatim>\<open>snapIndex\<close> and the product are 0 and the value is
  \<^verbatim>\<open>0 / 0\<close>. Nothing guards the division: with snapping on, \<^verbatim>\<open>snap\<close> is the call
  \<^verbatim>\<open>setPosition(NaN, true)\<close> followed by the calls to the parent.
\<close>

theorem C10_snap_zero_steps:
  assumes "opt_size s = Fin 0"
  shows "jdiv (jmul (snapIndex s) (getWidth s)) (opt_size s) = NaN
     \<and> (\<forall>r w. ratio s = Fin r \<and> fl r = Fin r \<and> trackWidth s = Fin w
          \<longrightarrow> snapIndex s = Fin 0 \<and> jmul (snapIndex s) (getWidth s) = Fin 0)
     \<and> (opt_snap s \<longrightarrow>
          snap s = (case setPosition (Num NaN) True False s of
                      Inl err \<Rightarrow> Inl err
                    | Inr s1 \<Rightarrow>
                        if sliderdown s1
                        then Inr (s1\<lparr>emitted := emitted s1 @ [XAPIInteracted, XAPICompleted],
                                     sliderdown := False\<rparr>)
                        else Inr s1))"
proof -
  have z: "fl 0 = Fin 0" "fl 1 = Fin 1" by (simp_all add: fl_eval)
  have t: "jmul v (Fin 0) = Fin 0 \<or> jmul v (Fin 0) = NaN" for v
    using z by (cases v) simp_all
  have d: "jadd (Fin 0) (jdiv u (Fin 1)) = Fin 0 \<or> jadd (Fin 0) (jdiv u (Fin 1)) = NaN"
    if "u = Fin 0 \<or> u = NaN" for u
    using that z by auto
  have "map_agamotto (ratio s) (Fin 0) (Fin 1) (Fin 0) (Fin 0) = Fin 0
      \<or> map_agamotto (ratio s) (Fin 0) (Fin 1) (Fin 0) (Fin 0) = NaN"
    using d [OF t [of "jsub (ratio s) (Fin 0)"]] z
    by (simp add: map_agamotto_def jsub_def)
  then have si: "snapIndex s = Fin 0 \<or> snapIndex s = NaN"
    using assms by (auto simp: snapIndex_def)
  have m: "jmul (snapIndex s) (getWidth s) = Fin 0 \<or> jmul (snapIndex s) (getWidth s) = NaN"
    using si z by (cases "trackWidth s") (auto simp: getWidth_def)
  have one: "jdiv (jmul (snapIndex s) (getWidth s)) (opt_size s) = NaN"
    using m assms by auto
  have two: "\<forall>r w. ratio s = Fin r \<and> fl r = Fin r \<and> trackWidth s = Fin w
          \<longrightarrow> snapIndex s = Fin 0 \<and> jmul (snapIndex s) (getWidth s) = Fin 0"
    using assms z by (simp add: snapIndex_def map_agamotto_def jsub_def getWidth_def)
  have three: "opt_snap s \<longrightarrow>
          snap s = (case setPosition (Num NaN) True False s of
                      Inl err \<Rightarrow> Inl err
                    | Inr s1 \<Rightarrow>
                        if sliderdown s1
                        then Inr (s1\<lparr>emitted := emitted s1 @ [XAPIInteracted, XAPICompleted],
                                     sliderdown := False\<rparr>)
                        else Inr s1)"
    using one by (simp add: snap_def)
  show ?thesis using one two three by blast
qed

theorem C10_snap_zero_steps_witness:
  "opt_size no_steps = Fin 0 \<and> trackWidth no_steps = Fin 200
   \<and> ratio no_steps = Fin (5404319552844595 / 18014398509481984)
   \<and> snapIndex no_steps = Fin 0 \<and> jmul (snapIndex no_steps) (getWidth no_steps) = Fin 0
   \<and> jdiv (jmul (snapIndex no_steps) (getWidth no_steps)) (opt_size no_steps) = NaN"
proof -
  have h: "opt_size no_steps = Fin 0" "trackWidth no_steps = Fin 200"
    "ratio no_steps = Fin (5404319552844595 / 18014398509481984)"
    by (simp_all add: no_steps_def track200_def fresh_def init_def setWidth_def fl_eval)
  have d: "fl (5404319552844595 / 18014398509481984)
             = Fin (5404319552844595 / 18014398509481984)"
    by (simp add: fl_eval)
  from C10_snap_zero_steps [OF h(1)] have one:
    "jdiv (jmul (snapIndex no_steps) (getWidth no_steps)) (opt_size no_steps) = NaN"
    and two: "\<forall>r w. ratio no_steps = Fin r \<and> fl r = Fin r \<and> trackWidth no_steps = Fin w
          \<longrightarrow> snapIndex no_steps = Fin 0 \<and> jmul (snapIndex no_steps) (getWidth no_steps) = Fin 0"
    by blast+
  have "snapIndex no_steps = Fin 0 \<and> jmul (snapIndex no_steps) (getWidth no_steps) = Fin 0"
    using two [rule_format, of "5404319552844595 / 18014398509481984" 200] h(2,3) d
    by blast
  then show ?thesis using h one by blast
qed

text \<open>
  C3 (amended). On an enabled slider with snapping on and \<open>n > 0\<close> steps, \<^verbatim>\<open>snap()\<close> calls
  \<^verbatim>\<open>setPosition(round(map(r, 0, 1, 0, n)) * w / n, true)\<close>: the transition is switched
  on and the style is assigned that value as \<^verbatim>\<open>parseInt\<close> reads it (cut to a whole
  pixel), clamped to the track, plus the thumb offset. When the value is a whole number of
  pixels on the track, the resulting position is that value; for \<open>w = 200\<close>, \<open>n = 4\<close> and
  the ratio \<^verbatim>\<open>0.3\<close> it is 50.
\<close>

theorem C3_snap_target:
  assumes "opt_snap s" and "\<not> disabled s" and "opt_size s = Fin n" and "0 < n"
  shows "\<exists>s'. snap s = Inr s' \<and> transition s'
     \<and> thumb_left s' = assign_left (jadd (constrain (parseInt_number
          (jdiv (jmul (Math_round (map_agamotto (ratio s) (Fin 0) (Fin 1) (Fin 0) (Fin n)))
             (trackWidth s)) (Fin n))) (Fin 0) (trackWidth s)) THUMB_OFFSET) (thumb_left s)
     \<and> (\<forall>k w. jdiv (jmul (Math_round (map_agamotto (ratio s) (Fin 0) (Fin 1) (Fin 0)
             (Fin n))) (trackWidth s)) (Fin n) = Fin (of_int k)
           \<and> trackWidth s = Fin w \<and> 0 \<le> k \<and> of_int k \<le> w
           \<and> of_int k + 8 \<le> (2::rat) ^ 53
          \<longrightarrow> getPosition s' = Fin (of_int k))"
proof -
  let ?X = "jdiv (jmul (Math_round (map_agamotto (ratio s) (Fin 0) (Fin 1) (Fin 0)
             (Fin n))) (trackWidth s)) (Fin n)"
  let ?pos = "constrain (parseInt_number ?X) (Fin 0) (trackWidth s)"
  let ?pc = "Math_round (jmul (jdiv ?pos (trackWidth s)) (Fin 100))"
  let ?s1 = "s\<lparr>transition := True, ratio := jdiv ?pos (trackWidth s),
           thumb_left := assign_left (jadd ?pos THUMB_OFFSET) (thumb_left s),
           aria_valuenow := ?pc,
           emitted := emitted s @ [Update ?pos ?pc]\<rparr>"
  let ?s' = "if sliderdown s
             then ?s1\<lparr>emitted := emitted ?s1 @ [XAPIInteracted, XAPICompleted],
                       sliderdown := False\<rparr>
             else ?s1"
  have sn: "snap s = Inr ?s'"
    using assms
    by (simp add: snap_def snapIndex_def getWidth_def setPosition_accepted pixel_of_Num)
  have tl: "thumb_left ?s' = assign_left (jadd ?pos THUMB_OFFSET) (thumb_left s)"
    "transition ?s'" by simp_all
  have whole: "getPosition ?s' = Fin (of_int k)"
    if h: "?X = Fin (of_int k)" "trackWidth s = Fin w" "0 \<le> k" "of_int k \<le> w"
       "of_int k + 8 \<le> (2::rat) ^ 53" for k w
  proof -
    have k0: "(0::rat) \<le> of_int k" using h(3) by simp
    have k53: "rat_of_int k \<le> 2 ^ 53" using h(5) by linarith
    have "parseInt_number (Fin (of_int k)) = Fin (of_int \<lfloor>rat_of_int k\<rfloor>)"
    proof (rule parseInt_number_floor)
      show "(0::rat) \<le> of_int k" by (rule k0)
      show "rat_of_int k = 0 \<or> 1 / 10 ^ 6 \<le> rat_of_int k"
      proof (cases "k = 0")
        case True
        then show ?thesis by simp
      next
        case False
        then have "1 \<le> k" using h(3) by simp
        then have "(1::rat) \<le> of_int k" by simp
        then show ?thesis by simp
      qed
      show "rat_of_int k \<le> 2 ^ 53" by (rule k53)
    qed
    then have p: "parseInt_number ?X = Fin (of_int k)" using h(1) by simp
    have c: "?pos = Fin (of_int k)"
      using p h(2) k0 h(4) by (simp add: constrain_Fin min_def max_def)
    have "thumb_left ?s' = Some (Fin (of_int k + 8))"
      unfolding tl(1) c using offset_add [OF h(3,5)] by (simp add: assign_left_def)
    then show ?thesis using h(3,5) by (rule getPosition_stored)
  qed
  show ?thesis
    using sn tl whole by (intro exI [of _ ?s']) blast
qed

theorem C3_snap_target_witness:
  "opt_snap snap_example \<and> \<not> disabled snap_example
   \<and> trackWidth snap_example = Fin 200 \<and> opt_size snap_example = Fin 4
   \<and> ratio snap_example = fl (3 / 10)
   \<and> (\<exists>s'. snap snap_example = Inr s' \<and> transition s' \<and> getPosition s' = Fin 50)"
proof -
  have x: "jdiv (jmul (Math_round (map_agamotto (ratio snap_example) (Fin 0) (Fin 1) (Fin 0)
             (Fin 4))) (trackWidth snap_example)) (Fin 4)
           = Fin (of_int 50)"
    by (simp add: snap_example_def track200_def fresh_def init_def setWidth_def
        map_agamotto_def jsub_def fl_eval)
  have h: "opt_snap snap_example" "\<not> disabled snap_example"
    "opt_size snap_example = Fin 4" "trackWidth snap_example = Fin 200"
    "ratio snap_example = fl (3 / 10)"
    by (simp_all add: snap_example_def track200_def fresh_def init_def setWidth_def)
  from C3_snap_target [OF h(1,2,3)] obtain s' where s': "snap snap_example = Inr s'"
    "transition s'"
    "\<forall>k w. jdiv (jmul (Math_round (map_agamotto (ratio snap_example) (Fin 0) (Fin 1) (Fin 0)
             (Fin 4))) (trackWidth snap_example)) (Fin 4)
             = Fin (of_int k)
           \<and> trackWidth snap_example = Fin w \<and> 0 \<le> k \<and> of_int k \<le> w
           \<and> of_int k + 8 \<le> (2::rat) ^ 53
          \<longrightarrow> getPosition s' = Fin (of_int k)"
    by auto
  have "getPosition s' = Fin (of_int 50)"
    using s'(3) [rule_format, of 50 200] x h(4) by simp
  then show ?thesis using h s'(1,2) by simp
qed

text \<open>
  As stated, with the thumb at exactly \<^verbatim>\<open>round(map(r, 0, 1, 0, n)) * w / n\<close> in every
  state, C3 fails where that value is not a whole number: for \<open>w = 100\<close>, \<open>n = 3\<close> and the
  ratio \<^verbatim>\<open>0.3\<close> it is \<open>33.333333333333336\<close> and the thumb goes to pixel 33. It also fails
  on a disabled slider, where \<^verbatim>\<open>snap\<close> moves nothing.
\<close>

theorem C3_counterexample:
  "opt_snap thirds \<and> \<not> disabled thirds
   \<and> jdiv (jmul (Math_round (map_agamotto (ratio thirds) (Fin 0) (Fin 1) (Fin 0)
        (opt_size thirds))) (trackWidth thirds)) (opt_size thirds)
       = Fin (4691249611844267 / 140737488355328)
   \<and> getPosition (attempt (snap thirds) thirds) = Fin 33
   \<and> getPosition (attempt (snap (disable snap_example)) (disable snap_example)) = Fin 0"
  by (simp add: eval_defs parse_eval fl_eval)

subsection \<open>Resizing\<close>

text \<open>
  C4 (amended). On an enabled slider \<^verbatim>\<open>resize()\<close> sets the track width to
  \<open>W = parseInt(offsetWidth) - 32\<close>, leaves the stored ratio \<open>r\<close> unchanged and assigns the
  style \<^verbatim>\<open>parseInt(W * r)\<close>, clamped to \<open>[0, W]\<close>, plus the thumb offset. For \<open>0 \<le> r \<le> 1\<close>
  and a whole \<open>W\<close> with \<open>0 \<le> W \<le> 2\<^sup>5\<^sup>3 - 8\<close> the product \<^verbatim>\<open>W * r\<close>, as rounded to a double,
  lies in \<open>[0, W]\<close>, and when it is 0 or at least \<open>10\<^sup>-\<^sup>6\<close> the position read back is its
  floor. The result does not depend on the previous track width.
\<close>

theorem C4_resize_position:
  assumes "\<not> disabled s"
  shows "\<exists>s'. resize offsetWidth s = Inr s'
     \<and> trackWidth s' = jsub (parseInt_number offsetWidth) (jmul (Fin 2) TRACK_OFFSET)
     \<and> ratio s' = ratio s
     \<and> thumb_left s' = assign_left (jadd (constrain (parseInt_number
          (jmul (trackWidth s') (ratio s))) (Fin 0) (trackWidth s')) THUMB_OFFSET)
          (thumb_left s)
     \<and> (\<forall>r n. ratio s = Fin r \<and> trackWidth s' = Fin (of_int n) \<and> 0 \<le> r \<and> r \<le> 1
            \<and> 0 \<le> n \<and> of_int n + 8 \<le> (2::rat) ^ 53
          \<longrightarrow> (\<exists>x. jmul (trackWidth s') (ratio s) = Fin x \<and> 0 \<le> x \<and> x \<le> of_int n
                 \<and> (x = 0 \<or> 1 / 10 ^ 6 \<le> x \<longrightarrow> getPosition s' = Fin (of_int \<lfloor>x\<rfloor>))))
     \<and> resize offsetWidth (s\<lparr>trackWidth := t\<rparr>) = resize offsetWidth s"
proof -
  let ?W = "jsub (parseInt_number offsetWidth) (jmul (Fin 2) TRACK_OFFSET)"
  let ?pos = "constrain (parseInt_number (jmul ?W (ratio s))) (Fin 0) ?W"
  let ?pc = "Math_round (jmul (jdiv ?pos ?W) (Fin 100))"
  let ?s' = "s\<lparr>trackWidth := ?W, transition := False,
           thumb_left := assign_left (jadd ?pos THUMB_OFFSET) (thumb_left s),
           aria_valuenow := ?pc,
           emitted := emitted s @ [Update ?pos ?pc]\<rparr>"
  have en: "\<not> disabled (setWidth ?W s)" using assms by (simp add: setWidth_def)
  have rs: "resize offsetWidth s = Inr ?s'"
    using setPosition_accepted [OF en pixel_of_Num, of _ False True]
    by (simp add: resize_def Let_def setWidth_def getWidth_def)
  have indep: "resize offsetWidth (s\<lparr>trackWidth := t\<rparr>) = resize offsetWidth s"
    by (simp add: resize_def Let_def setWidth_def)
  have fin: "\<exists>x. jmul ?W (ratio s) = Fin x \<and> 0 \<le> x \<and> x \<le> of_int n
                 \<and> (x = 0 \<or> 1 / 10 ^ 6 \<le> x \<longrightarrow> getPosition ?s' = Fin (of_int \<lfloor>x\<rfloor>))"
    if h: "ratio s = Fin r" "?W = Fin (of_int n)" "0 \<le> r" "r \<le> 1" "0 \<le> n"
      "of_int n + 8 \<le> (2::rat) ^ 53" for r n
  proof -
    have n0: "(0::rat) \<le> of_int n" using h(5) by simp
    have b: "of_int 0 \<le> of_int n * r" "of_int n * r \<le> of_int n"
      using h(3,4) n0 by (simp_all add: mult_left_le)
    have n53: "rat_of_int n \<le> 2 ^ 53" using h(6) by linarith
    obtain x where x: "fl (of_int n * r) = Fin x" "0 \<le> x" "x \<le> of_int n"
      using fl_between [OF _ b n53] by auto
    have prod: "jmul ?W (ratio s) = Fin x" unfolding h(1,2) using x(1) by simp
    have rd: "getPosition ?s' = Fin (of_int \<lfloor>x\<rfloor>)" if reg: "x = 0 \<or> 1 / 10 ^ 6 \<le> x"
    proof -
      have x53: "x \<le> 2 ^ 53" using x(3) n53 by linarith
      have p: "parseInt_number (Fin x) = Fin (of_int \<lfloor>x\<rfloor>)"
        using x(2) reg x53 by (rule parseInt_number_floor)
      have f0: "0 \<le> \<lfloor>x\<rfloor>" using x(2) by simp
      have fn: "rat_of_int \<lfloor>x\<rfloor> \<le> of_int n" using x(3) of_int_floor_le [of x] by linarith
      have f8: "rat_of_int \<lfloor>x\<rfloor> + 8 \<le> 2 ^ 53" using fn h(6) by linarith
      have f0r: "(0::rat) \<le> of_int \<lfloor>x\<rfloor>" using f0 by simp
      have c: "?pos = Fin (of_int \<lfloor>x\<rfloor>)"
        unfolding prod p unfolding h(2) using f0r fn
        by (simp add: constrain_Fin min_def max_def del: of_int_floor_le)
      have "thumb_left ?s' = Some (Fin (of_int \<lfloor>x\<rfloor> + 8))"
        unfolding c using offset_add [OF f0 f8] by (simp add: assign_left_def)
      then show ?thesis using f0 f8 by (rule getPosition_stored)
    qed
    show ?thesis using prod x(2,3) rd by blast
  qed
  show ?thesis
    using rs indep fin by (intro exI [of _ ?s']) simp
qed

text \<open>
  On a track of 22 pixels with the thumb at 15 the stored ratio is the double below
  \<open>15 / 22\<close>; a resize to 22 pixels computes \<^verbatim>\<open>22 * ratio\<close> as \<open>14.999999999999998\<close> and
  puts the thumb at 14.
\<close>

theorem C4_resize_position_witness:
  "\<not> disabled track22 \<and> ratio track22 = Fin (6141272219141585 / 9007199254740992)
   \<and> jmul (Fin 22) (ratio track22) = Fin (8444249301319679 / 562949953421312)
   \<and> (\<exists>s'. resize (Fin 54) track22 = Inr s' \<and> trackWidth s' = Fin 22
         \<and> getPosition s' = Fin 14)"
proof -
  have h: "\<not> disabled track22" "ratio track22 = Fin (6141272219141585 / 9007199254740992)"
    by (simp_all add: eval_defs parse_eval fl_eval)
  have w: "jsub (parseInt_number (Fin 54)) (jmul (Fin 2) TRACK_OFFSET) = Fin (of_int 22)"
    by (simp add: parse_eval fl_eval jsub_def TRACK_OFFSET_def)
  have m: "jmul (Fin 22) (ratio track22) = Fin (8444249301319679 / 562949953421312)"
    unfolding h(2) by (simp add: fl_eval)
  from C4_resize_position [OF h(1), of "Fin 54"] obtain s' where s':
    "resize (Fin 54) track22 = Inr s'"
    "trackWidth s' = jsub (parseInt_number (Fin 54)) (jmul (Fin 2) TRACK_OFFSET)"
    "\<forall>r n. ratio track22 = Fin r \<and> trackWidth s' = Fin (of_int n) \<and> 0 \<le> r \<and> r \<le> 1
            \<and> 0 \<le> n \<and> of_int n + 8 \<le> (2::rat) ^ 53
          \<longrightarrow> (\<exists>x. jmul (trackWidth s') (ratio track22) = Fin x \<and> 0 \<le> x \<and> x \<le> of_int n
                 \<and> (x = 0 \<or> 1 / 10 ^ 6 \<le> x \<longrightarrow> getPosition s' = Fin (of_int \<lfloor>x\<rfloor>)))"
    by blast
  have tw: "trackWidth s' = Fin (of_int 22)" using s'(2) w by simp
  have "\<exists>x. jmul (trackWidth s') (ratio track22) = Fin x \<and> 0 \<le> x \<and> x \<le> of_int 22
                 \<and> (x = 0 \<or> 1 / 10 ^ 6 \<le> x \<longrightarrow> getPosition s' = Fin (of_int \<lfloor>x\<rfloor>))"
    using s'(3) [rule_format, of "6141272219141585 / 9007199254740992" 22] h(2) tw by simp
  then obtain x where x: "jmul (trackWidth s') (ratio track22) = Fin x"
    "x = 0 \<or> 1 / 10 ^ 6 \<le> x \<longrightarrow> getPosition s' = Fin (of_int \<lfloor>x\<rfloor>)" by blast
  have "Fin x = Fin (8444249301319679 / 562949953421312)" using x(1) m tw by simp
  then have xv: "x = 8444249301319679 / 562949953421312" by (simp only: jsnum.inject)
  have fx: "\<lfloor>x\<rfloor> = 14" unfolding xv by simp
  have "1 / 10 ^ 6 \<le> x" unfolding xv by simp
  then have "getPosition s' = Fin (of_int \<lfloor>x\<rfloor>)" using x(2) by blast
  then have "getPosition s' = Fin 14" unfolding fx by simp
  then show ?thesis using h m s'(1) tw by simp
qed

text \<open>
  As stated, for every ratio and every new width, C4 fails on an enabled slider in two
  ways. Where the new width is negative: for a container that is not displayed
  \<^verbatim>\<open>offsetWidth\<close> is 0 and \<open>W\<close> is \<open>-32\<close>; with the ratio 0.5 \<^verbatim>\<open>parseInt(W * r)\<close> is
  \<open>-16\<close>, which no clamp to a range ending at \<open>-32\<close> returns; the thumb goes to \<open>-32\<close>.
  And where \<^verbatim>\<open>W * r\<close> is below \<open>10\<^sup>-\<^sup>6\<close>: with the thumb at pixel 1 of 2000000 the ratio is
  \<^verbatim>\<open>5e-7\<close>; a resize to \<open>W = 1\<close> computes \<^verbatim>\<open>W * r\<close> as \<^verbatim>\<open>5e-7\<close>, whose floor is 0, but
  \<^verbatim>\<open>parseInt\<close> reads 5 and the thumb goes to pixel 1.
\<close>

theorem C4_counterexample:
  "\<not> disabled at100 \<and> ratio at100 = Fin (1 / 2)
   \<and> trackWidth (attempt (resize (Fin 0) at100) at100) = Fin (- 32)
   \<and> parseInt_number (jmul (Fin (- 32)) (ratio at100)) = Fin (- 16)
   \<and> getPosition (attempt (resize (Fin 0) at100) at100) = Fin (- 32)
   \<and> \<not> disabled wide \<and> getPosition wide = Fin 1
   \<and> ratio wide = Fin (4722366482869645 / 9444732965739290427392)
   \<and> trackWidth (attempt (resize (Fin 33) wide) wide) = Fin 1
   \<and> jmul (Fin 1) (ratio wide) = Fin (4722366482869645 / 9444732965739290427392)
   \<and> \<lfloor>4722366482869645 / 9444732965739290427392 :: rat\<rfloor> = 0
   \<and> getPosition (attempt (resize (Fin 33) wide) wide) = Fin 1"
  by (simp add: eval_defs wide_def parse_eval fl_eval)

subsection \<open>The keyboard\<close>

lemma key_keydown:
  "key_left (s\<lparr>keydown := k\<rparr>) = key_left s"
  "key_right (s\<lparr>keydown := k\<rparr>) = key_right s"
  by (simp_all add: key_left_def key_right_def Let_def getPosition_def getWidth_def)

lemma keydown_held: "keydown s = Some c \<Longrightarrow> s\<lparr>keydown := Some c\<rparr> = s"
  by (cases s) simp

text \<open>
  C6 (amended). While a direction key is held (no key-up in between), a key-down of the
  other direction key does nothing. A repeated key-down of the same direction key is let
  through by the test \<^verbatim>\<open>that.keydown === 37\<close> (\<^verbatim>\<open>=== 39\<close>) and applies the step of 1% of
  the track width again: it calls \<^verbatim>\<open>setPosition\<close> with the current position less (plus)
  \<^verbatim>\<open>0.01 * parseInt(getWidth())\<close>, exactly as a first key-down in that state would.
\<close>

theorem C6_key_repeat:
  "(keydown s = Some 37 \<longrightarrow> on_event (KeyDown 39 kc) s = s)
   \<and> (keydown s = Some 39 \<longrightarrow> on_event (KeyDown 37 kc) s = s)
   \<and> (keydown s = Some 37 \<longrightarrow>
        on_event (KeyDown 37 kc) s
          = attempt (setPosition (Num (jsub (getPosition s)
              (jmul (fl (1 / 100)) (parseInt_number (getWidth s))))) False False s) s
        \<and> on_event (KeyDown 37 kc) s = on_event (KeyDown 37 kc) (s\<lparr>keydown := None\<rparr>))
   \<and> (keydown s = Some 39 \<longrightarrow>
        on_event (KeyDown 39 kc) s
          = attempt (setPosition (Num (jadd (getPosition s)
              (jmul (fl (1 / 100)) (parseInt_number (getWidth s))))) False False s) s
        \<and> on_event (KeyDown 39 kc) s = on_event (KeyDown 39 kc) (s\<lparr>keydown := None\<rparr>))"
proof -
  have l: "key_left s = attempt (setPosition (Num (jsub (getPosition s)
      (jmul (fl (1 / 100)) (parseInt_number (getWidth s))))) False False s) s"
    if "keydown s = Some 37"
    using keydown_held [OF that] by (simp add: key_left_def Let_def)
  have r: "key_right s = attempt (setPosition (Num (jadd (getPosition s)
      (jmul (fl (1 / 100)) (parseInt_number (getWidth s))))) False False s) s"
    if "keydown s = Some 39"
    using keydown_held [OF that] by (simp add: key_right_def Let_def)
  show ?thesis using l r by (simp add: Let_def key_keydown)
qed

theorem C6_key_repeat_witness:
  "keydown (on_event (KeyDown 37 0) at100) = Some 37
   \<and> on_event (KeyDown 39 0) (on_event (KeyDown 37 0) at100) = on_event (KeyDown 37 0) at100
   \<and> getPosition (on_event (KeyDown 37 0) at100) = Fin 98
   \<and> on_event (KeyDown 37 0) (on_event (KeyDown 37 0) at100)
       = attempt (setPosition (Num (Fin 96)) False False (on_event (KeyDown 37 0) at100))
           (on_event (KeyDown 37 0) at100)"
proof -
  have k: "keydown (on_event (KeyDown 37 0) at100) = Some 37"
    "getPosition (on_event (KeyDown 37 0) at100) = Fin 98"
    "getWidth (on_event (KeyDown 37 0) at100) = Fin 200"
    by (simp_all add: eval_defs key_left_def parse_eval fl_eval)
  have p: "jsub (Fin 98) (jmul (fl (1 / 100)) (parseInt_number (Fin 200))) = Fin 96"
    by (simp add: jsub_def parse_eval fl_eval)
  show ?thesis
    using C6_key_repeat [of "on_event (KeyDown 37 0) at100" 0] k p by simp
qed

text \<open>
  As stated, with only the first key-down of a hold moving the thumb, C6 fails: on a track
  of 200 pixels with the thumb at 100, a first key-down of the left key moves it to 98 and
  a second one, with no key-up in between, moves it on to 96.
\<close>

theorem C6_counterexample:
  "getPosition at100 = Fin 100
   \<and> keydown (run [KeyDown 37 0] at100) = Some 37
   \<and> getPosition (run [KeyDown 37 0] at100) = Fin 98
   \<and> getPosition (run [KeyDown 37 0, KeyDown 37 0] at100) = Fin 96"
  by (simp add: eval_defs key_left_def parse_eval fl_eval)

subsection \<open>The calls to the parent\<close>

lemma snap_total: "\<exists>s'. snap s = Inr s'"
  by (simp add: snap_def setPosition_def pixel_of_Num Let_def)

lemma xapi_setPosition:
  "setPosition i a r s = Inr s' \<Longrightarrow> sliderdown s' = sliderdown s \<and> xapi s' = xapi s"
  by (auto simp: setPosition_def Let_def xapi_def split: if_splits sum.splits option.splits)

lemma xapi_attempt_setPosition:
  "sliderdown (attempt (setPosition i a r s) s) = sliderdown s
   \<and> xapi (attempt (setPosition i a r s) s) = xapi s"
  using xapi_setPosition [of i a r s] by (cases "setPosition i a r s") (simp_all add: attempt_def)

lemma xapi_snap:
  assumes "snap s = Inr s'"
  shows "\<not> sliderdown s' \<and>
     xapi s' = xapi s @ (if sliderdown s then [XAPIInteracted, XAPICompleted] else [])"
proof (cases "opt_snap s")
  case False
  then show ?thesis using assms by (auto simp: snap_def xapi_def split: if_splits)
next
  case True
  then obtain s1 where
    s1: "setPosition (Num (jdiv (jmul (snapIndex s) (getWidth s)) (opt_size s)))
           True False s = Inr s1"
    using assms by (auto simp: snap_def split: sum.splits)
  have f: "sliderdown s1 = sliderdown s" "xapi s1 = xapi s"
    using xapi_setPosition [OF s1] by simp_all
  show ?thesis
    using assms True s1 f by (auto simp: snap_def xapi_def split: if_splits)
qed

lemma released_same:
  "sliderdown s' = sliderdown s \<Longrightarrow> xapi s' = xapi s \<Longrightarrow> released s s'"
  by (simp add: released_def)

lemma released_trans: "released s s' \<Longrightarrow> released s' s'' \<Longrightarrow> released s s''"
  by (cases "sliderdown s"; cases "sliderdown s'"; cases "sliderdown s''")
     (simp_all add: released_def)

lemma released_snap: "released s (attempt (snap s) s)"
proof -
  obtain s1 where s1: "snap s = Inr s1" using snap_total by blast
  show ?thesis using xapi_snap [OF s1] by (simp add: s1 released_def attempt_def)
qed

lemma touchmove_flags:
  "sliderdown (((\<lambda>t. attempt (setPosition i a r t) t) ^^ n) s) = sliderdown s
   \<and> xapi (((\<lambda>t. attempt (setPosition i a r t) t) ^^ n) s) = xapi s"
  by (induction n) (simp_all add: xapi_attempt_setPosition)

lemma key_flags:
  "sliderdown (key_left s) = sliderdown s \<and> xapi (key_left s) = xapi s"
  "sliderdown (key_right s) = sliderdown s \<and> xapi (key_right s) = xapi s"
  using xapi_attempt_setPosition [of _ False False "s\<lparr>keydown := Some 37\<rparr>"]
    xapi_attempt_setPosition [of _ False False "s\<lparr>keydown := Some 39\<rparr>"]
  by (simp_all add: key_left_def key_right_def Let_def xapi_def)

text \<open>Every listener but the two for a press on the control keeps the relation.\<close>

lemma released_on_event:
  assumes "\<not> is_press e"
  shows "released s (on_event e s)"
proof (cases e)
  case (MouseMove x)
  then show ?thesis by (simp add: released_same xapi_attempt_setPosition)
next
  case MouseUp
  have "released s (s\<lparr>mousedown := False\<rparr>)" by (simp add: released_same xapi_def)
  then show ?thesis
    using MouseUp released_snap [of "s\<lparr>mousedown := False\<rparr>"]
    by (auto intro: released_trans simp: Let_def)
next
  case (MouseDownTrack x)
  then show ?thesis using assms by (simp add: is_press_def)
next
  case (MouseDownThumb x)
  then show ?thesis using assms by (simp add: is_press_def)
next
  case (TouchStart xs)
  show ?thesis
    using xapi_setPosition [of "Obj (touch_event ''touchstart'' xs)" False False s]
    by (cases "setPosition (Obj (touch_event ''touchstart'' xs)) False False s")
       (simp_all add: TouchStart released_def xapi_def)
next
  case (TouchMove xs)
  then show ?thesis by (simp add: released_same touchmove_flags)
next
  case TouchEnd
  then show ?thesis by (simp add: released_snap)
next
  case (KeyDown w k)
  then show ?thesis by (simp add: Let_def released_same key_flags)
next
  case KeyUp
  obtain s1 where s1: "snap s = Inr s1" using snap_total by blast
  then show ?thesis using KeyUp xapi_snap [OF s1] by (simp add: released_def xapi_def)
next
  case (CallResize ow)
  let ?s1 = "setWidth (jsub (parseInt_number ow) (jmul (Fin 2) TRACK_OFFSET)) s"
  have "on_event e s
          = attempt (setPosition (Num (jmul (getWidth ?s1) (ratio ?s1))) False True ?s1) ?s1"
    using CallResize by (simp add: resize_def Let_def)
  moreover have "sliderdown ?s1 = sliderdown s" "xapi ?s1 = xapi s"
    by (simp_all add: setWidth_def xapi_def)
  ultimately show ?thesis
    using xapi_attempt_setPosition [of _ False True ?s1] by (simp add: released_same)
next
  case CallEnable
  then show ?thesis by (simp add: released_same enable_def xapi_def)
next
  case CallDisable
  then show ?thesis by (simp add: released_same disable_def xapi_def)
qed

lemma released_run:
  "\<forall>e \<in> set es. \<not> is_press e \<Longrightarrow> released s (run es s)"
proof (induction es arbitrary: s)
  case Nil
  then show ?case by (simp add: released_def)
next
  case (Cons e es)
  have "released s (on_event e s)" using Cons.prems by (simp add: released_on_event)
  moreover have "released (on_event e s) (run es (on_event e s))"
    using Cons.prems by (intro Cons.IH) simp
  ultimately show ?case by (auto intro: released_trans)
qed

lemma run_append: "run (xs @ ys) s = run ys (run xs s)"
  by (induction xs arbitrary: s) simp_all

lemma press_flags:
  "sliderdown (on_event (MouseDownTrack x) s) \<and> xapi (on_event (MouseDownTrack x) s) = xapi s
   \<and> sliderdown (on_event (MouseDownThumb x) s) \<and> xapi (on_event (MouseDownThumb x) s) = xapi s"
  using xapi_attempt_setPosition [of _ False False "s\<lparr>mousedown := True, sliderdown := True\<rparr>"]
  by (simp add: Let_def xapi_def)

text \<open>Events without a press, up to and including the release.\<close>

lemma cycle_from:
  assumes "\<forall>e \<in> set es. \<not> is_press e"
  shows "\<not> sliderdown (run (es @ [MouseUp]) s)
     \<and> xapi (run (es @ [MouseUp]) s)
         = xapi s @ (if sliderdown s then [XAPIInteracted, XAPICompleted] else [])"
proof -
  have a: "\<forall>e \<in> set (es @ [MouseUp]). \<not> is_press e"
    using assms by (simp add: is_press_def)
  have r: "released s (run (es @ [MouseUp]) s)" by (rule released_run [OF a])
  have "run (es @ [MouseUp]) s = on_event MouseUp (run es s)" by (simp add: run_append)
  moreover have "\<not> sliderdown (on_event MouseUp t)" for t
  proof -
    obtain t1 where t1: "snap (t\<lparr>mousedown := False\<rparr>) = Inr t1"
      using snap_total by blast
    show ?thesis using xapi_snap [OF t1] by (simp add: t1 Let_def attempt_def)
  qed
  ultimately have d: "\<not> sliderdown (run (es @ [MouseUp]) s)" by simp
  show ?thesis using r d by (simp add: released_def)
qed

text \<open>
  C7 (amended). A mouse press-release cycle is a \<^verbatim>\<open>mousedown\<close>, any events other than a
  \<^verbatim>\<open>mousedown\<close> on the control, and the \<^verbatim>\<open>mouseup\<close>. If the \<^verbatim>\<open>mousedown\<close> was on the
  control (track or thumb), the cycle adds to the calls made to the parent exactly
  \<^verbatim>\<open>xAPIInteracted\<close> followed by \<^verbatim>\<open>xAPICompleted\<close>, once, and leaves \<open>sliderdown\<close>
  cleared. With \<open>sliderdown\<close> unset, events without a \<^verbatim>\<open>mousedown\<close> on the control add
  no call, with or without a release at their end: so a touch cycle on the control,
  \<^verbatim>\<open>touchstart\<close> to \<^verbatim>\<open>touchend\<close>, adds none. (The pair is sent by the first \<^verbatim>\<open>snap\<close> of
  the cycle, which a key-up or touch-end may run before the release.)
\<close>

theorem C7_interaction_once:
  assumes "\<forall>e \<in> set es. \<not> is_press e"
  shows "xapi (run (MouseDownTrack x # es @ [MouseUp]) s)
           = xapi s @ [XAPIInteracted, XAPICompleted]
     \<and> xapi (run (MouseDownThumb x # es @ [MouseUp]) s)
           = xapi s @ [XAPIInteracted, XAPICompleted]
     \<and> \<not> sliderdown (run (MouseDownTrack x # es @ [MouseUp]) s)
     \<and> \<not> sliderdown (run (MouseDownThumb x # es @ [MouseUp]) s)
     \<and> (\<not> sliderdown s \<longrightarrow> xapi (run (es @ [MouseUp]) s) = xapi s)
     \<and> (\<not> sliderdown s \<longrightarrow> xapi (run es s) = xapi s)"
proof -
  have "released s (run es s)" by (rule released_run [OF assms])
  then have t: "\<not> sliderdown s \<longrightarrow> xapi (run es s) = xapi s"
    by (simp add: released_def)
  show ?thesis
    using cycle_from [OF assms, of "on_event (MouseDownTrack x) s"]
      cycle_from [OF assms, of "on_event (MouseDownThumb x) s"]
      cycle_from [OF assms, of s] press_flags [of x s] t
    by simp
qed

theorem C7_interaction_once_witness:
  "\<not> is_press (MouseMove (Fin 120)) \<and> \<not> is_press KeyUp \<and> \<not> sliderdown track200
   \<and> xapi (run [MouseDownTrack (Fin 100), MouseMove (Fin 120), KeyUp, MouseUp] track200)
        = [XAPIInteracted, XAPICompleted]
   \<and> xapi (run [MouseMove (Fin 120), KeyUp, MouseUp] track200) = []"
  using C7_interaction_once [of "[MouseMove (Fin 120), KeyUp]" "Fin 100" track200]
  by (simp add: is_press_def xapi_def track200_def fresh_def init_def setWidth_def)

text \<open>
  As stated, for every press-release cycle whose press was on the control, C7 fails for a
  touch: \<^verbatim>\<open>touchstart\<close> on the control, \<^verbatim>\<open>touchmove\<close> and \<^verbatim>\<open>touchend\<close> move the thumb
  and snap it, but the \<^verbatim>\<open>touchstart\<close> listener does not set \<open>sliderdown\<close> and the parent
  is not called.
\<close>

theorem C7_counterexample:
  "getPosition (run [TouchStart [Fin 100], TouchMove [Fin 150]] track200) = Fin 134
   \<and> getPosition (run [TouchStart [Fin 100], TouchMove [Fin 150], TouchEnd] track200) = Fin 150
   \<and> \<not> sliderdown (run [TouchStart [Fin 100], TouchMove [Fin 150]] track200)
   \<and> emitted (run [TouchStart [Fin 100], TouchMove [Fin 150], TouchEnd] track200)
       = [Update (Fin 84) (Fin 42), Update (Fin 134) (Fin 67), Update (Fin 150) (Fin 75)]
   \<and> xapi (run [TouchStart [Fin 100], TouchMove [Fin 150], TouchEnd] track200) = []"
  by (simp add: eval_defs parse_eval fl_eval touch_event_def getPointerX_def xapi_def
      parseInt_string_def is_white_def is_digit_def digit_value_def digits_value_def)

end
